theory Spec2Isabelle
  imports Complex_Main "HOL-Library.Stream"
begin

section \<open>The terrain pad generator of \<^verbatim>\<open>src/app.tsx\<close>\<close>

text \<open>
  The two generators of \<^verbatim>\<open>app.tsx\<close>, \<^verbatim>\<open>generateRandomId\<close> (lines 11-18) and
  \<^verbatim>\<open>generateRandomPad\<close> (lines 21-55), are embedded here, twice. In the first embedding a
  JavaScript \<^verbatim>\<open>number\<close> is a \<^typ>\<open>real\<close> and the arithmetic is exact; it carries the
  properties that do not depend on rounding (the identifier, the slope, the order of the
  corners, the degenerate box, the reference algorithm, determinism). In the second embedding,
  whose names end in \<open>64\<close>, every arithmetic operation rounds its result to an IEEE 754 double
  as JavaScript does; it carries the bounds on the centre, the footprint and the elevation.
  The ambient source \<^verbatim>\<open>Math.random\<close> is modelled by explicit state passing: the state is the
  infinite sequence of the values it has yet to return.
\<close>

subsection \<open>Data model\<close>

text \<open>
  \<^verbatim>\<open>type Position = { x: number; y: number; z: number }\<close> and
  \<^verbatim>\<open>type Bbox = { min: Position; max: Position }\<close> (lines 7-8). The fields carry a prefix
  because \<open>min\<close> and \<open>max\<close> are constants of HOL and \<open>x\<close>, \<open>y\<close> occur in two record types.
\<close>

record Position =
  pos_x :: real
  pos_y :: real
  pos_z :: real

record Bbox =
  min_pt :: Position
  max_pt :: Position

text \<open>An element \<^verbatim>\<open>{ x, y }\<close> of the \<^verbatim>\<open>coordinates\<close> array (lines 46-49).\<close>

record Coordinate =
  coord_x :: real
  coord_y :: real

text \<open>
  The object literal returned on lines 43-54, of the SDK's type \<^verbatim>\<open>TerrainPadInput\<close>.
  The field \<^verbatim>\<open>id\<close> is \<open>pad_id\<close> here (\<open>id\<close> is the identity function of HOL).
\<close>

record TerrainPadInput =
  pad_id :: string
  coordinates :: "Coordinate list"
  elevation :: real
  slopePercentage :: real
  applyGrade :: bool

subsection \<open>The random source and the library functions\<close>

type_synonym rng = "real stream"

text \<open>\<^verbatim>\<open>Math.random()\<close>: returns the next draw and advances the source.\<close>

definition Math_random :: "rng \<Rightarrow> real \<times> rng" where
  "Math_random g = (shd g, stl g)"


text \<open>\<^verbatim>\<open>Math.floor\<close>: the result is again a \<^verbatim>\<open>number\<close>.\<close>

definition Math_floor :: "real \<Rightarrow> real" where
  "Math_floor v = of_int \<lfloor>v\<rfloor>"

text \<open>
  \<^verbatim>\<open>String.prototype.charAt\<close>: the position is truncated towards zero; a position outside
  the string gives the empty string.
\<close>

definition charAt :: "string \<Rightarrow> real \<Rightarrow> string" where
  "charAt s p =
     (let i = (if 0 \<le> p then \<lfloor>p\<rfloor> else \<lceil>p\<rceil>)
      in if 0 \<le> i \<and> i < int (length s) then [s ! nat i] else [])"

subsection \<open>\<^verbatim>\<open>generateRandomId\<close> (lines 11-18)\<close>

definition chars :: string where
  "chars = ''abcdefghijklmnopqrstuvwxyz0123456789''"

text \<open>The \<^verbatim>\<open>for\<close> loop of lines 14-16, with the counter, the string built so far and the source.\<close>

function generateRandomId_loop :: "nat \<Rightarrow> string \<Rightarrow> rng \<Rightarrow> string \<times> rng" where
  "generateRandomId_loop i result g =
     (if i < 13 then
        (case Math_random g of (u, g') \<Rightarrow>
           generateRandomId_loop (i + 1)
             (result @ charAt chars (Math_floor (u * real (length chars)))) g')
      else (result, g))"
  by pat_completeness auto
termination
  by (relation "measure (\<lambda>(i, result, g). 13 - i)") auto

declare generateRandomId_loop.simps [simp del]

definition generateRandomId :: "rng \<Rightarrow> string \<times> rng" where
  "generateRandomId g = generateRandomId_loop 0 [] g"

subsection \<open>\<^verbatim>\<open>generateRandomPad\<close> (lines 21-55)\<close>

text \<open>
  The draws are taken in the order in which the source evaluates its calls of
  \<^verbatim>\<open>Math.random\<close>: \<^verbatim>\<open>centerX\<close>, \<^verbatim>\<open>centerY\<close>, \<^verbatim>\<open>size\<close>, \<^verbatim>\<open>elevation\<close>, \<^verbatim>\<open>slopePercentage\<close>, and then
  the thirteen draws of \<^verbatim>\<open>generateRandomId()\<close>, the first property of the returned object.
\<close>

definition generateRandomPad :: "Bbox \<Rightarrow> rng \<Rightarrow> TerrainPadInput \<times> rng" where
  "generateRandomPad bbox g0 =
     (let margin = 0.1;
          xRange = pos_x (max_pt bbox) - pos_x (min_pt bbox);
          yRange = pos_y (max_pt bbox) - pos_y (min_pt bbox);
          zRange = pos_z (max_pt bbox) - pos_z (min_pt bbox);
          (u1, g1) = Math_random g0;
          centerX = pos_x (min_pt bbox) + xRange * margin + u1 * xRange * (1 - 2 * margin);
          (u2, g2) = Math_random g1;
          centerY = pos_y (min_pt bbox) + yRange * margin + u2 * yRange * (1 - 2 * margin);
          maxSize = min xRange yRange * 0.2;
          (u3, g3) = Math_random g2;
          size = max 10 (min 50 (maxSize * (0.2 + u3 * 0.8)));
          halfSize = size / 2;
          (u4, g4) = Math_random g3;
          elevation = pos_z (min_pt bbox) + u4 * zRange;
          (u5, g5) = Math_random g4;
          slopePercentage = Math_floor (10 + u5 * 100);
          (ident, g6) = generateRandomId g5
      in (\<lparr>pad_id = ident,
           coordinates =
             [\<lparr>coord_x = centerX - halfSize, coord_y = centerY - halfSize\<rparr>,
              \<lparr>coord_x = centerX + halfSize, coord_y = centerY - halfSize\<rparr>,
              \<lparr>coord_x = centerX + halfSize, coord_y = centerY + halfSize\<rparr>,
              \<lparr>coord_x = centerX - halfSize, coord_y = centerY + halfSize\<rparr>],
           elevation = elevation,
           slopePercentage = slopePercentage,
           applyGrade = True\<rparr>, g6))"

subsection \<open>The local constants of \<^verbatim>\<open>generateRandomPad\<close> as functions\<close>

text \<open>
  Each definition is the right-hand side of the \<^verbatim>\<open>const\<close> of the same name (lines 24-35) as a
  function of the box and of the draw it uses (\<open>pad_size\<close> is \<^verbatim>\<open>size\<close>). Lemma
  \<open>generateRandomPad_unfold\<close> below shows that the returned object is built from them.
\<close>

definition xRange :: "Bbox \<Rightarrow> real" where
  "xRange bbox = pos_x (max_pt bbox) - pos_x (min_pt bbox)"

definition yRange :: "Bbox \<Rightarrow> real" where
  "yRange bbox = pos_y (max_pt bbox) - pos_y (min_pt bbox)"

definition zRange :: "Bbox \<Rightarrow> real" where
  "zRange bbox = pos_z (max_pt bbox) - pos_z (min_pt bbox)"

definition centerX :: "Bbox \<Rightarrow> real \<Rightarrow> real" where
  "centerX bbox u = pos_x (min_pt bbox) + xRange bbox * 0.1 + u * xRange bbox * (1 - 2 * 0.1)"

definition centerY :: "Bbox \<Rightarrow> real \<Rightarrow> real" where
  "centerY bbox u = pos_y (min_pt bbox) + yRange bbox * 0.1 + u * yRange bbox * (1 - 2 * 0.1)"

definition maxSize :: "Bbox \<Rightarrow> real" where
  "maxSize bbox = min (xRange bbox) (yRange bbox) * 0.2"

definition pad_size :: "Bbox \<Rightarrow> real \<Rightarrow> real" where
  "pad_size bbox u = max 10 (min 50 (maxSize bbox * (0.2 + u * 0.8)))"

definition halfSize :: "Bbox \<Rightarrow> real \<Rightarrow> real" where
  "halfSize bbox u = pad_size bbox u / 2"

subsection \<open>The reference algorithm of the specification\<close>

text \<open>
  These two definitions follow the words of the specification (section 4.2, steps 1 to 8), not
  the source: the draws \<open>U1\<close>, ..., \<open>U5\<close> and the identifier are arguments, the constant
  \<open>0.8\<close> is written as such, and \<open>clamp\<close> restricts a value to an interval. They are compared
  with \<open>generateRandomPad\<close> in the refinement theorem.
\<close>

definition spec_clamp :: "real \<Rightarrow> real \<Rightarrow> real \<Rightarrow> real" where
  "spec_clamp v lo hi = (if v < lo then lo else if hi < v then hi else v)"

definition spec_generatePad ::
    "Bbox \<Rightarrow> real \<Rightarrow> real \<Rightarrow> real \<Rightarrow> real \<Rightarrow> real \<Rightarrow> string \<Rightarrow> TerrainPadInput" where
  "spec_generatePad bbox U1 U2 U3 U4 U5 ident =
     (let xRange = pos_x (max_pt bbox) - pos_x (min_pt bbox);
          yRange = pos_y (max_pt bbox) - pos_y (min_pt bbox);
          zRange = pos_z (max_pt bbox) - pos_z (min_pt bbox);
          centerX = pos_x (min_pt bbox) + 0.1 * xRange + U1 * xRange * 0.8;
          centerY = pos_y (min_pt bbox) + 0.1 * yRange + U2 * yRange * 0.8;
          maxSize = min xRange yRange * 0.2;
          size = spec_clamp (maxSize * (0.2 + U3 * 0.8)) 10 50;
          halfSize = size / 2
      in \<lparr>pad_id = ident,
          coordinates =
            [\<lparr>coord_x = centerX - halfSize, coord_y = centerY - halfSize\<rparr>,
             \<lparr>coord_x = centerX + halfSize, coord_y = centerY - halfSize\<rparr>,
             \<lparr>coord_x = centerX + halfSize, coord_y = centerY + halfSize\<rparr>,
             \<lparr>coord_x = centerX - halfSize, coord_y = centerY + halfSize\<rparr>],
          elevation = pos_z (min_pt bbox) + U4 * zRange,
          slopePercentage = of_int \<lfloor>10 + U5 * 100\<rfloor>,
          applyGrade = True\<rparr>)"

subsection \<open>Example terrains\<close>

text \<open>
  The terrain of the specification's example (100 by 100, 20 high), a terrain of height zero,
  and a terrain whose footprint is the single point (3, 4).
\<close>

abbreviation terrain_100 :: Bbox where
  "terrain_100 \<equiv> \<lparr>min_pt = \<lparr>pos_x = 0, pos_y = 0, pos_z = 0\<rparr>,
                   max_pt = \<lparr>pos_x = 100, pos_y = 100, pos_z = 20\<rparr>\<rparr>"

abbreviation terrain_flat :: Bbox where
  "terrain_flat \<equiv> \<lparr>min_pt = \<lparr>pos_x = 0, pos_y = 0, pos_z = 0\<rparr>,
                    max_pt = \<lparr>pos_x = 100, pos_y = 100, pos_z = 0\<rparr>\<rparr>"

abbreviation terrain_point :: Bbox where
  "terrain_point \<equiv> \<lparr>min_pt = \<lparr>pos_x = 3, pos_y = 4, pos_z = 0\<rparr>,
                     max_pt = \<lparr>pos_x = 3, pos_y = 4, pos_z = 7\<rparr>\<rparr>"

subsection \<open>IEEE 754 double precision\<close>

text \<open>
  \<open>rhe\<close> rounds a real number to the nearest integer, a tie to the even one. \<open>expo x\<close> is the
  binary exponent of \<open>x\<close>, the integer \<open>e\<close> with \<open>2 powi e \<le> \<bar>x\<bar> < 2 powi (e + 1)\<close> (lemma
  \<open>expo_eqI\<close> computes it), and \<open>quantum x\<close> is the exponent of the last place of the doubles
  around \<open>x\<close>: 52 below the exponent of \<open>x\<close>, and never below -1074, where the subnormal
  numbers lie. \<open>binary64 x\<close> is \<open>x\<close> rounded to the nearest double, ties to even (the rounding
  of every JavaScript operation). The exponent is not bounded above: the model has no
  \<^verbatim>\<open>Infinity\<close> and no \<^verbatim>\<open>NaN\<close>, and it agrees with JavaScript as long as no result reaches
  \<open>2 ^ 1024\<close>.
\<close>

definition rhe :: "real \<Rightarrow> int" where
  "rhe x =
     (if x - of_int \<lfloor>x\<rfloor> < 1 / 2 then \<lfloor>x\<rfloor>
      else if 1 / 2 < x - of_int \<lfloor>x\<rfloor> then \<lfloor>x\<rfloor> + 1
      else if even \<lfloor>x\<rfloor> then \<lfloor>x\<rfloor> else \<lfloor>x\<rfloor> + 1)"

definition expo :: "real \<Rightarrow> int" where
  "expo x = (if x = 0 then 0 else \<lfloor>log 2 \<bar>x\<bar>\<rfloor>)"

definition quantum :: "real \<Rightarrow> int" where
  "quantum x = max (expo x - 52) (- 1074)"

definition binary64 :: "real \<Rightarrow> real" where
  "binary64 x = of_int (rhe (x / 2 powi quantum x)) * 2 powi quantum x"

text \<open>
  The doubles are the values that rounding leaves alone. \<open>eta64\<close> is half the distance between
  neighbouring subnormal numbers, the largest rounding error near zero.
\<close>

definition is_double :: "real \<Rightarrow> bool" where
  "is_double x \<longleftrightarrow> binary64 x = x"

definition eta64 :: real where
  "eta64 = 1 / 2 ^ 1075"

text \<open>
  The operators \<^verbatim>\<open>+\<close>, \<^verbatim>\<open>-\<close>, \<^verbatim>\<open>*\<close> and \<^verbatim>\<open>/\<close> of JavaScript: the exact result, rounded.
\<close>

definition add64 :: "real \<Rightarrow> real \<Rightarrow> real" where
  "add64 x y = binary64 (x + y)"

definition sub64 :: "real \<Rightarrow> real \<Rightarrow> real" where
  "sub64 x y = binary64 (x - y)"

definition mul64 :: "real \<Rightarrow> real \<Rightarrow> real" where
  "mul64 x y = binary64 (x * y)"

definition div64 :: "real \<Rightarrow> real \<Rightarrow> real" where
  "div64 x y = binary64 (x / y)"

subsection \<open>The generators in double arithmetic\<close>

text \<open>
  \<^verbatim>\<open>generateRandomId\<close> and \<^verbatim>\<open>generateRandomPad\<close> once more, with every arithmetic operation
  of the source replaced by its rounded counterpart in the source's order of evaluation
  (\<^verbatim>\<open>a + b + c\<close> is \<^verbatim>\<open>(a + b) + c\<close>, \<^verbatim>\<open>a * b * c\<close> is \<^verbatim>\<open>(a * b) * c\<close>). The literals \<^verbatim>\<open>0.1\<close>,
  \<^verbatim>\<open>0.2\<close> and \<^verbatim>\<open>0.8\<close> are the doubles nearest to them; \<^verbatim>\<open>Math.min\<close>, \<^verbatim>\<open>Math.max\<close> and
  \<^verbatim>\<open>Math.floor\<close> are exact.
\<close>

function generateRandomId64_loop :: "nat \<Rightarrow> string \<Rightarrow> rng \<Rightarrow> string \<times> rng" where
  "generateRandomId64_loop i result g =
     (if i < 13 then
        (case Math_random g of (u, g') \<Rightarrow>
           generateRandomId64_loop (i + 1)
             (result @ charAt chars (Math_floor (mul64 u (real (length chars))))) g')
      else (result, g))"
  by pat_completeness auto
termination
  by (relation "measure (\<lambda>(i, result, g). 13 - i)") auto

declare generateRandomId64_loop.simps [simp del]

definition generateRandomId64 :: "rng \<Rightarrow> string \<times> rng" where
  "generateRandomId64 g = generateRandomId64_loop 0 [] g"

definition generateRandomPad64 :: "Bbox \<Rightarrow> rng \<Rightarrow> TerrainPadInput \<times> rng" where
  "generateRandomPad64 bbox g0 =
     (let margin = binary64 0.1;
          xRange = sub64 (pos_x (max_pt bbox)) (pos_x (min_pt bbox));
          yRange = sub64 (pos_y (max_pt bbox)) (pos_y (min_pt bbox));
          zRange = sub64 (pos_z (max_pt bbox)) (pos_z (min_pt bbox));
          (u1, g1) = Math_random g0;
          centerX = add64 (add64 (pos_x (min_pt bbox)) (mul64 xRange margin))
                      (mul64 (mul64 u1 xRange) (sub64 1 (mul64 2 margin)));
          (u2, g2) = Math_random g1;
          centerY = add64 (add64 (pos_y (min_pt bbox)) (mul64 yRange margin))
                      (mul64 (mul64 u2 yRange) (sub64 1 (mul64 2 margin)));
          maxSize = mul64 (min xRange yRange) (binary64 0.2);
          (u3, g3) = Math_random g2;
          size = max 10 (min 50
                   (mul64 maxSize (add64 (binary64 0.2) (mul64 u3 (binary64 0.8)))));
          halfSize = div64 size 2;
          (u4, g4) = Math_random g3;
          elevation = add64 (pos_z (min_pt bbox)) (mul64 u4 zRange);
          (u5, g5) = Math_random g4;
          slopePercentage = Math_floor (add64 10 (mul64 u5 100));
          (ident, g6) = generateRandomId64 g5
      in (\<lparr>pad_id = ident,
           coordinates =
             [\<lparr>coord_x = sub64 centerX halfSize, coord_y = sub64 centerY halfSize\<rparr>,
              \<lparr>coord_x = add64 centerX halfSize, coord_y = sub64 centerY halfSize\<rparr>,
              \<lparr>coord_x = add64 centerX halfSize, coord_y = add64 centerY halfSize\<rparr>,
              \<lparr>coord_x = sub64 centerX halfSize, coord_y = add64 centerY halfSize\<rparr>],
           elevation = elevation,
           slopePercentage = slopePercentage,
           applyGrade = True\<rparr>, g6))"

text \<open>
  The local constants of lines 24-35 in double arithmetic, as functions of the box and of the
  draw they use.
\<close>

definition xRange64 :: "Bbox \<Rightarrow> real" where
  "xRange64 bbox = sub64 (pos_x (max_pt bbox)) (pos_x (min_pt bbox))"

definition yRange64 :: "Bbox \<Rightarrow> real" where
  "yRange64 bbox = sub64 (pos_y (max_pt bbox)) (pos_y (min_pt bbox))"

definition zRange64 :: "Bbox \<Rightarrow> real" where
  "zRange64 bbox = sub64 (pos_z (max_pt bbox)) (pos_z (min_pt bbox))"

definition centerX64 :: "Bbox \<Rightarrow> real \<Rightarrow> real" where
  "centerX64 bbox u =
     add64 (add64 (pos_x (min_pt bbox)) (mul64 (xRange64 bbox) (binary64 0.1)))
       (mul64 (mul64 u (xRange64 bbox)) (sub64 1 (mul64 2 (binary64 0.1))))"

definition centerY64 :: "Bbox \<Rightarrow> real \<Rightarrow> real" where
  "centerY64 bbox u =
     add64 (add64 (pos_y (min_pt bbox)) (mul64 (yRange64 bbox) (binary64 0.1)))
       (mul64 (mul64 u (yRange64 bbox)) (sub64 1 (mul64 2 (binary64 0.1))))"

definition maxSize64 :: "Bbox \<Rightarrow> real" where
  "maxSize64 bbox = mul64 (min (xRange64 bbox) (yRange64 bbox)) (binary64 0.2)"

definition pad_size64 :: "Bbox \<Rightarrow> real \<Rightarrow> real" where
  "pad_size64 bbox u =
     max 10 (min 50 (mul64 (maxSize64 bbox) (add64 (binary64 0.2) (mul64 u (binary64 0.8)))))"

definition halfSize64 :: "Bbox \<Rightarrow> real \<Rightarrow> real" where
  "halfSize64 bbox u = div64 (pad_size64 bbox u) 2"

text \<open>
  The inputs of the double model. The coordinates of a box are doubles of magnitude at most
  \<open>2 ^ 1000\<close>: for such a box no operation of lines 24-49 reaches \<open>2 ^ 1024\<close>, so that the
  model and JavaScript agree. \<^verbatim>\<open>Math.random\<close> returns doubles, at least 0 and below 1.
\<close>

definition double_coord :: "real \<Rightarrow> bool" where
  "double_coord c \<longleftrightarrow> is_double c \<and> \<bar>c\<bar> \<le> 2 ^ 1000"

definition double_box :: "Bbox \<Rightarrow> bool" where
  "double_box bbox \<longleftrightarrow>
     double_coord (pos_x (min_pt bbox)) \<and> double_coord (pos_y (min_pt bbox)) \<and>
     double_coord (pos_z (min_pt bbox)) \<and> double_coord (pos_x (max_pt bbox)) \<and>
     double_coord (pos_y (max_pt bbox)) \<and> double_coord (pos_z (max_pt bbox))"

definition double_draws :: "rng \<Rightarrow> bool" where
  "double_draws g \<longleftrightarrow> (\<forall>u \<in> sset g. is_double u \<and> 0 \<le> u \<and> u < 1)"

text \<open>
  The rounding slack allowed on an axis whose box coordinates are \<open>a\<close> and \<open>b\<close>: a fraction
  \<open>1 / 2 ^ 49\<close> of their magnitudes, plus \<open>16 * eta64\<close> for results near zero.
\<close>

definition slack64 :: "real \<Rightarrow> real \<Rightarrow> real" where
  "slack64 a b = (\<bar>a\<bar> + \<bar>b\<bar>) / 2 ^ 49 + 16 * eta64"

text \<open>
  Two more example terrains: one whose z range is 100 to 120, and the 50 by 50 terrain
  between the doubles nearest to 0.1 and to 50.1.
\<close>

abbreviation terrain_high :: Bbox where
  "terrain_high \<equiv> \<lparr>min_pt = \<lparr>pos_x = 0, pos_y = 0, pos_z = 100\<rparr>,
                    max_pt = \<lparr>pos_x = 100, pos_y = 100, pos_z = 120\<rparr>\<rparr>"

abbreviation terrain_50 :: Bbox where
  "terrain_50 \<equiv>
     \<lparr>min_pt = \<lparr>pos_x = 3602879701896397 / 36028797018963968,
                 pos_y = 3602879701896397 / 36028797018963968, pos_z = 0\<rparr>,
      max_pt = \<lparr>pos_x = 7050948166601933 / 140737488355328,
                 pos_y = 7050948166601933 / 140737488355328, pos_z = 20\<rparr>\<rparr>"

text \<open>
  The values of single rounded operations on concrete operands are collected under \<open>ev64\<close>.
\<close>

named_theorems ev64

section \<open>Properties\<close>

subsection \<open>The random source\<close>




lemma snth_numerals:
  "g !! 1 = shd (stl g)"
  "g !! 2 = shd (stl (stl g))"
  "g !! 3 = shd (stl (stl (stl g)))"
  "g !! 4 = shd (stl (stl (stl (stl g))))"
  by (simp_all add: eval_nat_numeral)

lemma sdrop_5: "sdrop 5 g = stl (stl (stl (stl (stl g))))"
  by (simp add: eval_nat_numeral)

subsection \<open>The identifier\<close>





text \<open>The loop takes one draw per remaining iteration: thirteen for a whole identifier.\<close>

lemma loop_rng: "snd (generateRandomId_loop i r g) = sdrop (13 - i) g"
proof (induction i r g rule: generateRandomId_loop.induct)
  case (1 i r g)
  show ?case
  proof (cases "i < 13")
    case True
    then have "13 - i = Suc (13 - (i + 1))" by simp
    then have "sdrop (13 - i) g = sdrop (13 - (i + 1)) (stl g)" by simp
    moreover have "snd (generateRandomId_loop i r g) =
       snd (generateRandomId_loop (i + 1)
          (r @ charAt chars (Math_floor (shd g * real (length chars)))) (stl g))"
      using True by (subst generateRandomId_loop.simps) (simp add: Math_random_def)
    ultimately show ?thesis
      using "1.IH"[OF True, of "shd g" "stl g"] by (simp add: Math_random_def)
  next
    case False
    then show ?thesis by (subst generateRandomId_loop.simps) simp
  qed
qed

text \<open>The identifier is a function of the next thirteen draws only.\<close>

lemma loop_fst_stake:
  "fst (generateRandomId_loop i r g) =
     r @ concat (map (\<lambda>u. charAt chars (Math_floor (u * real (length chars))))
                   (stake (13 - i) g))"
proof (induction i r g rule: generateRandomId_loop.induct)
  case (1 i r g)
  show ?case
  proof (cases "i < 13")
    case True
    then have n: "13 - i = Suc (13 - (i + 1))" by simp
    have "fst (generateRandomId_loop i r g) =
       fst (generateRandomId_loop (i + 1)
          (r @ charAt chars (Math_floor (shd g * real (length chars)))) (stl g))"
      using True by (subst generateRandomId_loop.simps) (simp add: Math_random_def)
    then show ?thesis
      using "1.IH"[OF True, of "shd g" "stl g"] unfolding n
      by (simp add: Math_random_def)
  next
    case False
    then show ?thesis by (subst generateRandomId_loop.simps) simp
  qed
qed

lemma generateRandomId_stake:
  "fst (generateRandomId g) =
     concat (map (\<lambda>u. charAt chars (Math_floor (u * real (length chars)))) (stake 13 g))"
  using loop_fst_stake[of 0 "[]" g] by (simp add: generateRandomId_def)

lemma generateRandomId_rng: "snd (generateRandomId g) = sdrop 13 g"
  using loop_rng[of 0 "[]" g] by (simp add: generateRandomId_def)



subsection \<open>The pad in terms of its local constants\<close>

text \<open>
  The object returned for a box and a source \<open>g\<close>: the draws \<open>g !! 0\<close>, ..., \<open>g !! 4\<close> give the
  centre, the size, the elevation and the slope, in this order; the identifier takes the next
  thirteen.
\<close>

lemma generateRandomPad_unfold:
  "generateRandomPad bbox g =
     (\<lparr>pad_id = fst (generateRandomId (sdrop 5 g)),
       coordinates =
         [\<lparr>coord_x = centerX bbox (g !! 0) - halfSize bbox (g !! 2),
           coord_y = centerY bbox (g !! 1) - halfSize bbox (g !! 2)\<rparr>,
          \<lparr>coord_x = centerX bbox (g !! 0) + halfSize bbox (g !! 2),
           coord_y = centerY bbox (g !! 1) - halfSize bbox (g !! 2)\<rparr>,
          \<lparr>coord_x = centerX bbox (g !! 0) + halfSize bbox (g !! 2),
           coord_y = centerY bbox (g !! 1) + halfSize bbox (g !! 2)\<rparr>,
          \<lparr>coord_x = centerX bbox (g !! 0) - halfSize bbox (g !! 2),
           coord_y = centerY bbox (g !! 1) + halfSize bbox (g !! 2)\<rparr>],
       elevation = pos_z (min_pt bbox) + g !! 3 * zRange bbox,
       slopePercentage = Math_floor (10 + g !! 4 * 100),
       applyGrade = True\<rparr>,
      snd (generateRandomId (sdrop 5 g)))"
  unfolding generateRandomPad_def Let_def Math_random_def split_beta fst_conv snd_conv
    snth_numerals sdrop_5 xRange_def yRange_def zRange_def centerX_def centerY_def
    maxSize_def pad_size_def halfSize_def
  by simp

lemma coordinates_generateRandomPad:
  "coordinates (fst (generateRandomPad bbox g)) =
         [\<lparr>coord_x = centerX bbox (g !! 0) - halfSize bbox (g !! 2),
           coord_y = centerY bbox (g !! 1) - halfSize bbox (g !! 2)\<rparr>,
          \<lparr>coord_x = centerX bbox (g !! 0) + halfSize bbox (g !! 2),
           coord_y = centerY bbox (g !! 1) - halfSize bbox (g !! 2)\<rparr>,
          \<lparr>coord_x = centerX bbox (g !! 0) + halfSize bbox (g !! 2),
           coord_y = centerY bbox (g !! 1) + halfSize bbox (g !! 2)\<rparr>,
          \<lparr>coord_x = centerX bbox (g !! 0) - halfSize bbox (g !! 2),
           coord_y = centerY bbox (g !! 1) + halfSize bbox (g !! 2)\<rparr>]"
  by (simp add: generateRandomPad_unfold)


lemma pad_size_bounds: "10 \<le> pad_size bbox u \<and> pad_size bbox u \<le> 50"
  by (simp add: pad_size_def)

lemma halfSize_bounds: "5 \<le> halfSize bbox u \<and> halfSize bbox u \<le> 25"
  using pad_size_bounds[of bbox u] by (simp add: halfSize_def)

lemma spec_clamp_max_min: "spec_clamp v 10 50 = max 10 (min 50 v)"
  by (simp add: spec_clamp_def max_def min_def)

lemma stake_18_split:
  assumes "stake 18 g1 = stake 18 g2"
  shows "stake 5 g1 = stake 5 g2" "stake 13 (sdrop 5 g1) = stake 13 (sdrop 5 g2)"
proof -
  have "take 5 (stake 18 g1) = take 5 (stake 18 g2)" using assms by simp
  then show "stake 5 g1 = stake 5 g2" by (simp add: take_stake)
  have "drop 5 (stake 18 g1) = drop 5 (stake 18 g2)" using assms by simp
  then show "stake 13 (sdrop 5 g1) = stake 13 (sdrop 5 g2)" by (simp add: drop_stake)
qed

lemma stake_eq_snth: "stake n g1 = stake n g2 \<Longrightarrow> k < n \<Longrightarrow> g1 !! k = g2 !! k"
  by (metis stake_nth)

subsection \<open>Slope percentage\<close>



subsection \<open>Degenerate terrains\<close>

text \<open>
  Claim C6. For a box whose x range and y range are both zero, \<open>maxSize\<close> is 0 and the side
  length is the floor value 10 (not 0), whatever the draws: the footprint is the square of side
  10 around the point \<open>(min.x, min.y)\<close>.
\<close>

theorem generateRandomPad_degenerate_floor:
  assumes "xRange bbox = 0" "yRange bbox = 0"
  shows "maxSize bbox = 0 \<and> pad_size bbox (g !! 2) = 10 \<and>
         coordinates (fst (generateRandomPad bbox g)) =
           [\<lparr>coord_x = pos_x (min_pt bbox) - 5, coord_y = pos_y (min_pt bbox) - 5\<rparr>,
            \<lparr>coord_x = pos_x (min_pt bbox) + 5, coord_y = pos_y (min_pt bbox) - 5\<rparr>,
            \<lparr>coord_x = pos_x (min_pt bbox) + 5, coord_y = pos_y (min_pt bbox) + 5\<rparr>,
            \<lparr>coord_x = pos_x (min_pt bbox) - 5, coord_y = pos_y (min_pt bbox) + 5\<rparr>]"
proof -
  have m: "maxSize bbox = 0" using assms by (simp add: maxSize_def)
  have s: "pad_size bbox (g !! 2) = 10" using m by (simp add: pad_size_def)
  have h: "halfSize bbox (g !! 2) = 5" using s by (simp add: halfSize_def)
  have cx: "centerX bbox (g !! 0) = pos_x (min_pt bbox)" using assms by (simp add: centerX_def)
  have cy: "centerY bbox (g !! 1) = pos_y (min_pt bbox)" using assms by (simp add: centerY_def)
  show ?thesis
    unfolding coordinates_generateRandomPad using m s h cx cy by simp
qed

text \<open>
  The terrain whose footprint is the point (3, 4) gets the square from (-2, -1) to (8, 9).
\<close>

theorem generateRandomPad_degenerate_floor_witness:
  "xRange terrain_point = 0 \<and> yRange terrain_point = 0 \<and>
   maxSize terrain_point = 0 \<and> pad_size terrain_point (sconst (1 / 2) !! 2) = 10 \<and>
   coordinates (fst (generateRandomPad terrain_point (sconst (1 / 2)))) =
     [\<lparr>coord_x = - 2, coord_y = - 1\<rparr>, \<lparr>coord_x = 8, coord_y = - 1\<rparr>,
      \<lparr>coord_x = 8, coord_y = 9\<rparr>, \<lparr>coord_x = - 2, coord_y = 9\<rparr>]"
proof -
  have a: "xRange terrain_point = 0" "yRange terrain_point = 0"
    by (simp_all add: xRange_def yRange_def)
  show ?thesis
    using a generateRandomPad_degenerate_floor[OF a, of "sconst (1 / 2)"] by simp
qed

subsection \<open>Order of the corners\<close>

text \<open>
  Claim C7. The four corners appear in the order bottom-left, bottom-right, top-right,
  top-left: \<open>(centerX - halfSize, centerY - halfSize)\<close>, \<open>(centerX + halfSize, centerY - halfSize)\<close>,
  \<open>(centerX + halfSize, centerY + halfSize)\<close>, \<open>(centerX - halfSize, centerY + halfSize)\<close>; since
  \<open>halfSize\<close> is positive, "minus" is indeed left (bottom) and "plus" right (top). This holds
  for every box and all draws.
\<close>

theorem generateRandomPad_corner_order:
  "coordinates (fst (generateRandomPad bbox g)) =
     [\<lparr>coord_x = centerX bbox (g !! 0) - halfSize bbox (g !! 2),
       coord_y = centerY bbox (g !! 1) - halfSize bbox (g !! 2)\<rparr>,
      \<lparr>coord_x = centerX bbox (g !! 0) + halfSize bbox (g !! 2),
       coord_y = centerY bbox (g !! 1) - halfSize bbox (g !! 2)\<rparr>,
      \<lparr>coord_x = centerX bbox (g !! 0) + halfSize bbox (g !! 2),
       coord_y = centerY bbox (g !! 1) + halfSize bbox (g !! 2)\<rparr>,
      \<lparr>coord_x = centerX bbox (g !! 0) - halfSize bbox (g !! 2),
       coord_y = centerY bbox (g !! 1) + halfSize bbox (g !! 2)\<rparr>] \<and>
   centerX bbox (g !! 0) - halfSize bbox (g !! 2) < centerX bbox (g !! 0) + halfSize bbox (g !! 2) \<and>
   centerY bbox (g !! 1) - halfSize bbox (g !! 2) < centerY bbox (g !! 1) + halfSize bbox (g !! 2)"
  using halfSize_bounds[of bbox "g !! 2"]
  by (simp add: coordinates_generateRandomPad)

subsection \<open>Refinement of the reference algorithm\<close>

text \<open>
  Claim C8. With the five draws and the identifier made explicit, \<open>generateRandomPad\<close>
  returns the pad of the reference algorithm \<open>spec_generatePad\<close> (steps 1 to 8 of section 4.2 of
  the specification), applied to the first five draws of the source and to the identifier that
  one call of \<open>generateRandomId\<close> makes from the source after these five draws; that call takes
  thirteen draws, so eighteen are taken in all.
\<close>

theorem generateRandomPad_refines_spec:
  "generateRandomPad bbox g =
     (spec_generatePad bbox (g !! 0) (g !! 1) (g !! 2) (g !! 3) (g !! 4)
        (fst (generateRandomId (sdrop 5 g))),
      snd (generateRandomId (sdrop 5 g))) \<and>
   snd (generateRandomId (sdrop 5 g)) = sdrop 18 g"
proof -
  have "generateRandomPad bbox g =
     (spec_generatePad bbox (g !! 0) (g !! 1) (g !! 2) (g !! 3) (g !! 4)
        (fst (generateRandomId (sdrop 5 g))),
      snd (generateRandomId (sdrop 5 g)))"
    unfolding generateRandomPad_unfold spec_generatePad_def Let_def spec_clamp_max_min
    by (simp add: centerX_def centerY_def halfSize_def pad_size_def maxSize_def
        xRange_def yRange_def zRange_def Math_floor_def)
  moreover have "snd (generateRandomId (sdrop 5 g)) = sdrop 18 g"
    by (simp add: generateRandomId_rng)
  ultimately show ?thesis by blast
qed

subsection \<open>Determinism\<close>

text \<open>
  Claim C9. Two runs on the same box whose sources agree on the eighteen draws that a run
  takes (five for the geometry, thirteen for the identifier) return the same pad, in every
  field.
\<close>

theorem generateRandomPad_deterministic:
  assumes "stake 18 g1 = stake 18 g2"
  shows "fst (generateRandomPad bbox g1) = fst (generateRandomPad bbox g2)"
proof -
  note s = stake_18_split[OF assms]
  have d: "g1 !! 0 = g2 !! 0" "g1 !! 1 = g2 !! 1" "g1 !! 2 = g2 !! 2"
          "g1 !! 3 = g2 !! 3" "g1 !! 4 = g2 !! 4"
    by (rule stake_eq_snth[OF s(1)], simp)+
  have i: "fst (generateRandomId (sdrop 5 g1)) = fst (generateRandomId (sdrop 5 g2))"
    by (simp only: generateRandomId_stake s(2))
  show ?thesis
    unfolding generateRandomPad_unfold fst_conv d i ..
qed

text \<open>
  Two sources that agree on the first eighteen draws and differ at the nineteenth.
\<close>

theorem generateRandomPad_deterministic_witness:
  "stake 18 (sconst (1 / 2 :: real)) = stake 18 (replicate 18 (1 / 2) @- sconst 0) \<and>
   sconst (1 / 2 :: real) !! 18 \<noteq> (replicate 18 (1 / 2) @- sconst 0) !! 18 \<and>
   fst (generateRandomPad terrain_100 (sconst (1 / 2))) =
   fst (generateRandomPad terrain_100 (replicate 18 (1 / 2) @- sconst (0::real)))"
proof -
  have a: "stake 18 (sconst (1 / 2 :: real)) = stake 18 (replicate 18 (1 / 2) @- sconst 0)"
    by (simp add: stake_shift map_replicate_const)
  have b: "sconst (1 / 2 :: real) !! 18 \<noteq> (replicate 18 (1 / 2) @- sconst 0) !! 18"
    by (simp add: shift_snth_ge)
  show ?thesis
    using a b generateRandomPad_deterministic[OF a, of terrain_100] by blast
qed

section \<open>Properties of double arithmetic\<close>

subsection \<open>Rounding to the nearest integer, and the exponent\<close>

lemma rhe_of_int: "rhe (of_int n) = n"
  by (simp add: rhe_def)

lemma rhe_bounds: "\<lfloor>x\<rfloor> \<le> rhe x \<and> rhe x \<le> \<lfloor>x\<rfloor> + 1"
  by (simp add: rhe_def)

lemma rhe_err: "\<bar>of_int (rhe x) - x\<bar> \<le> 1 / 2"
  unfolding rhe_def by (auto split: if_splits)

lemma rhe_mono:
  assumes "x \<le> y"
  shows "rhe x \<le> rhe y"
proof (cases "\<lfloor>x\<rfloor> = \<lfloor>y\<rfloor>")
  case True
  then show ?thesis using assms unfolding rhe_def by (auto split: if_splits)
next
  case False
  then have "\<lfloor>x\<rfloor> < \<lfloor>y\<rfloor>" using floor_mono[OF assms] by linarith
  then show ?thesis using rhe_bounds[of x] rhe_bounds[of y] by linarith
qed

lemma rhe_minus: "rhe (- x) = - rhe x"
proof (cases "x \<in> \<int>")
  case True
  then obtain n where "x = of_int n" by (auto elim: Ints_cases)
  then show ?thesis using rhe_of_int[of "- n"] rhe_of_int[of n] by simp
next
  case False
  then have ne: "x \<noteq> of_int \<lfloor>x\<rfloor>" by (metis Ints_of_int)
  have f: "\<lfloor>- x\<rfloor> = - \<lfloor>x\<rfloor> - 1"
    using ne by (simp add: ceiling_altdef floor_minus)
  have r: "- x - of_int \<lfloor>- x\<rfloor> = 1 - (x - of_int \<lfloor>x\<rfloor>)"
    unfolding f by simp
  define d where "d = x - of_int \<lfloor>x\<rfloor>"
  define k where "k = \<lfloor>x\<rfloor>"
  have e: "even (- k - 1) \<longleftrightarrow> odd k" by simp
  show ?thesis
    unfolding rhe_def r unfolding f d_def[symmetric] k_def[symmetric] e
    by (cases "d < 1 / 2"; cases "1 / 2 < d"; cases "even k") simp_all
qed

lemma powr_powi: "(2::real) powr (of_int n) = 2 powi n"
  by (simp add: powr_real_of_int')

lemma expo_bounds:
  assumes "x \<noteq> 0"
  shows "2 powi expo x \<le> \<bar>x\<bar>" and "\<bar>x\<bar> < 2 powi (expo x + 1)"
proof -
  have p: "0 < \<bar>x\<bar>" using assms by simp
  have "\<lfloor>log 2 \<bar>x\<bar>\<rfloor> = expo x" using assms by (simp add: expo_def)
  then have b: "2 powr (of_int (expo x)) \<le> \<bar>x\<bar> \<and> \<bar>x\<bar> < 2 powr (of_int (expo x + 1))"
    using floor_log_eq_powr_iff[of "\<bar>x\<bar>" 2 "expo x"] p by simp
  show "2 powi expo x \<le> \<bar>x\<bar>" using b unfolding powr_powi by blast
  show "\<bar>x\<bar> < 2 powi (expo x + 1)" using b unfolding powr_powi by blast
qed

lemma expo_eqI:
  assumes "2 powi e \<le> \<bar>x\<bar>" "\<bar>x\<bar> < 2 powi (e + 1)"
  shows "expo x = e"
proof -
  have "0 < (2::real) powi e" by simp
  then have p: "0 < \<bar>x\<bar>" using assms(1) by linarith
  then have nz: "x \<noteq> 0" by auto
  have "2 powr (of_int e) \<le> \<bar>x\<bar> \<and> \<bar>x\<bar> < 2 powr (of_int (e + 1))"
    unfolding powr_powi using assms by blast
  then have "\<lfloor>log 2 \<bar>x\<bar>\<rfloor> = e"
    using floor_log_eq_powr_iff[of "\<bar>x\<bar>" 2 e] p by simp
  then show ?thesis using nz by (simp add: expo_def)
qed

subsection \<open>Rounding is monotone\<close>

lemma p2_pos: "0 < (2::real) powi n" by simp

lemma p2_add: "(2::real) powi (a + b) = 2 powi a * 2 powi b"
  by (simp add: power_int_add)

lemma p2_mono: "a \<le> b \<Longrightarrow> (2::real) powi a \<le> 2 powi b"
  by (simp add: power_int_increasing)

lemma p2_less_cancel: "(2::real) powi a < 2 powi b \<Longrightarrow> a < b"
  using p2_mono[of b a] by (cases "a < b") simp_all

lemma p2_div_le: "x \<le> 2 powi (q + n) \<Longrightarrow> x / 2 powi q \<le> (2::real) powi n"
  by (simp add: p2_add pos_divide_le_eq mult.commute)

lemma p2_le_div: "2 powi (q + n) \<le> x \<Longrightarrow> (2::real) powi n \<le> x / 2 powi q"
  by (simp add: p2_add pos_le_divide_eq mult.commute)

lemma p2_div_less: "x < 2 powi (q + n) \<Longrightarrow> x / 2 powi q < (2::real) powi n"
  by (simp add: p2_add pos_divide_less_eq mult.commute)

lemma expo_mono:
  assumes "x \<noteq> 0" "\<bar>x\<bar> \<le> \<bar>y\<bar>"
  shows "expo x \<le> expo y"
proof -
  have y: "y \<noteq> 0" using assms by auto
  have "(2::real) powi expo x < 2 powi (expo y + 1)"
    using expo_bounds(1)[OF assms(1)] expo_bounds(2)[OF y] assms(2) by linarith
  then have "expo x < expo y + 1"
    by (rule p2_less_cancel)
  then show ?thesis by simp
qed

lemma quantum_ge: "- 1074 \<le> quantum x"
  by (simp add: quantum_def)

lemma quantum_minus: "quantum (- x) = quantum x"
  by (simp add: quantum_def expo_def)

lemma quantum_mono: "x \<noteq> 0 \<Longrightarrow> \<bar>x\<bar> \<le> \<bar>y\<bar> \<Longrightarrow> quantum x \<le> quantum y"
  using expo_mono[of x y] by (simp add: quantum_def)

lemma quantum_upper: "x \<noteq> 0 \<Longrightarrow> \<bar>x\<bar> < 2 powi (quantum x + 53)"
proof -
  assume x: "x \<noteq> 0"
  have "expo x + 1 \<le> quantum x + 53" by (simp add: quantum_def)
  then have "(2::real) powi (expo x + 1) \<le> 2 powi (quantum x + 53)" by (rule p2_mono)
  then show ?thesis using expo_bounds(2)[OF x] by linarith
qed

lemma quantum_lower: "x \<noteq> 0 \<Longrightarrow> - 1074 < quantum x \<Longrightarrow> 2 powi (quantum x + 52) \<le> \<bar>x\<bar>"
proof -
  assume x: "x \<noteq> 0" and q: "- 1074 < quantum x"
  then have "quantum x + 52 = expo x" by (simp add: quantum_def max_def split: if_splits)
  then show ?thesis using expo_bounds(1)[OF x] by simp
qed

lemma quantum_eqI:
  assumes "- 1074 \<le> q" "\<bar>x\<bar> < 2 powi (q + 53)" "q = - 1074 \<or> 2 powi (q + 52) \<le> \<bar>x\<bar>" "x \<noteq> 0"
  shows "quantum x = q"
proof -
  have a: "(2::real) powi expo x < 2 powi (q + 53)"
    using expo_bounds(1)[OF assms(4)] assms(2) by linarith
  then have "expo x < q + 53"
    by (rule p2_less_cancel)
  then have u: "expo x - 52 \<le> q" by simp
  show ?thesis
  proof (cases "q = - 1074")
    case True
    then show ?thesis using u by (simp add: quantum_def)
  next
    case False
    then have "(2::real) powi (q + 52) < 2 powi (expo x + 1)"
      using assms(3) expo_bounds(2)[OF assms(4)] by linarith
    then have "q + 52 < expo x + 1"
      by (rule p2_less_cancel)
    then show ?thesis using u assms(1) by (simp add: quantum_def)
  qed
qed

lemma binary64_0: "binary64 0 = 0"
  by (simp add: binary64_def rhe_def)

lemma binary64_minus: "binary64 (- x) = - binary64 x"
  by (simp add: binary64_def quantum_minus rhe_minus)

lemma binary64_nonneg: "0 \<le> x \<Longrightarrow> 0 \<le> binary64 x"
proof -
  assume "0 \<le> x"
  then have "0 \<le> x / 2 powi quantum x" by simp
  then have "rhe 0 \<le> rhe (x / 2 powi quantum x)" by (rule rhe_mono)
  then have "0 \<le> rhe (x / 2 powi quantum x)" using rhe_of_int[of 0] by simp
  then show ?thesis by (simp add: binary64_def)
qed

lemma rhe_le: "x \<le> of_int n \<Longrightarrow> rhe x \<le> n"
  using rhe_mono[of x "of_int n"] by (simp add: rhe_of_int)

lemma rhe_ge: "of_int n \<le> x \<Longrightarrow> n \<le> rhe x"
  using rhe_mono[of "of_int n" x] by (simp add: rhe_of_int)

lemma binary64_mono_pos:
  assumes "0 < x" "x \<le> y"
  shows "binary64 x \<le> binary64 y"
proof -
  have x: "x \<noteq> 0" and y: "y \<noteq> 0" and ay: "\<bar>y\<bar> = y" and ax: "\<bar>x\<bar> = x" using assms by auto
  have q: "quantum x \<le> quantum y" using quantum_mono[of x y] assms by simp
  show ?thesis
  proof (cases "quantum x = quantum y")
    case True
    have "x / 2 powi quantum y \<le> y / 2 powi quantum y"
      using assms(2) by (simp add: divide_right_mono)
    then have "rhe (x / 2 powi quantum y) \<le> rhe (y / 2 powi quantum y)" by (rule rhe_mono)
    then have "real_of_int (rhe (x / 2 powi quantum y)) * 2 powi quantum y
        \<le> real_of_int (rhe (y / 2 powi quantum y)) * 2 powi quantum y"
      by (intro mult_right_mono) simp_all
    then show ?thesis by (simp add: binary64_def True)
  next
    case False
    then have lt: "quantum x < quantum y" using q by simp
    then have "- 1074 < quantum y" using quantum_ge[of x] by linarith
    then have ly: "2 powi (quantum y + 52) \<le> y" using quantum_lower[OF y] ay by simp
    have "x / 2 powi quantum x \<le> 2 powi 53"
      using quantum_upper[OF x] ax by (intro p2_div_le) simp
    then have "x / 2 powi quantum x \<le> of_int (2 ^ 53)" by simp
    then have "rhe (x / 2 powi quantum x) \<le> 2 ^ 53" by (rule rhe_le)
    then have "real_of_int (rhe (x / 2 powi quantum x)) \<le> 2 powi 53"
      by (metis of_int_le_iff of_int_numeral of_int_power power_int_numeral)
    then have "real_of_int (rhe (x / 2 powi quantum x)) * 2 powi quantum x
        \<le> 2 powi 53 * 2 powi quantum x"
      by (intro mult_right_mono) simp_all
    then have bx: "binary64 x \<le> 2 powi (quantum x + 53)"
      by (simp add: binary64_def p2_add mult.commute)
    have "quantum x + 53 \<le> quantum y + 52" using lt by simp
    then have mid: "(2::real) powi (quantum x + 53) \<le> 2 powi (quantum y + 52)" by (rule p2_mono)
    have "2 powi 52 \<le> y / 2 powi quantum y" using ly by (intro p2_le_div) simp
    then have "of_int (2 ^ 52) \<le> y / 2 powi quantum y" by simp
    then have "2 ^ 52 \<le> rhe (y / 2 powi quantum y)" by (rule rhe_ge)
    then have "2 powi 52 \<le> real_of_int (rhe (y / 2 powi quantum y))"
      by (metis of_int_le_iff of_int_numeral of_int_power power_int_numeral)
    then have "2 powi 52 * 2 powi quantum y
        \<le> real_of_int (rhe (y / 2 powi quantum y)) * 2 powi quantum y"
      by (intro mult_right_mono) simp_all
    then have "2 powi (quantum y + 52) \<le> binary64 y"
      by (simp add: binary64_def p2_add mult.commute)
    then show ?thesis using bx mid by linarith
  qed
qed

lemma binary64_mono:
  assumes "x \<le> y"
  shows "binary64 x \<le> binary64 y"
proof -
  consider "0 < x" | "x \<le> 0" "0 \<le> y" | "y < 0" by linarith
  then show ?thesis
  proof cases
    case 1
    then show ?thesis using binary64_mono_pos assms by simp
  next
    case 2
    have "binary64 x \<le> 0" using binary64_nonneg[of "- x"] 2(1) by (simp add: binary64_minus)
    then show ?thesis using binary64_nonneg[OF 2(2)] by linarith
  next
    case 3
    then have "binary64 (- y) \<le> binary64 (- x)" using assms by (intro binary64_mono_pos) simp_all
    then show ?thesis by (simp add: binary64_minus)
  qed
qed

subsection \<open>Doubles, rounding errors and values of literals\<close>

text \<open>
  A number \<open>k * 2 powi q\<close> with \<open>\<bar>k\<bar> \<le> 2 ^ 53\<close> and \<open>q \<ge> -1074\<close> is a double; rounding is
  idempotent; the error of rounding \<open>x\<close> is at most \<open>\<bar>x\<bar> / 2 ^ 53\<close>, or \<open>eta64\<close> near zero.
\<close>

lemma quantum_le:
  assumes "x \<noteq> 0" "- 1074 \<le> q" "\<bar>x\<bar> < 2 powi (q + 53)"
  shows "quantum x \<le> q"
proof -
  have "(2::real) powi expo x < 2 powi (q + 53)"
    using expo_bounds(1)[OF assms(1)] assms(3) by linarith
  then have "expo x < q + 53" by (rule p2_less_cancel)
  then show ?thesis using assms(2) by (simp add: quantum_def)
qed

lemma p2_nat: "0 \<le> n \<Longrightarrow> (2::real) powi n = of_int (2 ^ nat n)"
  by (simp add: power_int_def)

lemma binary64_fix_lt:
  assumes "- 1074 \<le> q" "\<bar>k\<bar> < 2 ^ 53"
  shows "binary64 (of_int k * 2 powi q) = of_int k * 2 powi q"
proof (cases "k = 0")
  case True
  then show ?thesis by (simp add: binary64_0)
next
  case False
  define y :: real where "y = of_int k * 2 powi q"
  have y0: "y \<noteq> 0" using False by (simp add: y_def)
  have "\<bar>real_of_int k\<bar> < 2 ^ 53" using assms(2)
    by (metis of_int_abs of_int_less_iff of_int_numeral of_int_power)
  then have "\<bar>real_of_int k\<bar> * 2 powi q < 2 ^ 53 * 2 powi q"
    by (intro mult_strict_right_mono) simp_all
  then have "\<bar>y\<bar> < 2 powi (q + 53)"
    by (simp add: y_def abs_mult p2_add mult.commute)
  then have le: "quantum y \<le> q" using quantum_le[OF y0 assms(1)] by simp
  define n where "n = q - quantum y"
  have n: "0 \<le> n" using le by (simp add: n_def)
  have "2 powi q = (2::real) powi n * 2 powi quantum y"
    unfolding n_def by (simp add: p2_add[symmetric])
  then have yq: "y = of_int (k * 2 ^ nat n) * 2 powi quantum y"
    by (simp add: y_def p2_nat[OF n])
  moreover have "(2::real) powi quantum y \<noteq> 0" by simp
  ultimately have "y / 2 powi quantum y = of_int (k * 2 ^ nat n)"
    by (metis nonzero_mult_div_cancel_right)
  then have "rhe (y / 2 powi quantum y) = k * 2 ^ nat n" by (simp only: rhe_of_int)
  then have "binary64 y = of_int (k * 2 ^ nat n) * 2 powi quantum y"
    by (simp only: binary64_def)
  then have "binary64 y = y" using yq by (simp only:)
  then show ?thesis by (simp only: y_def)
qed

lemma binary64_fix:
  assumes "- 1074 \<le> q" "\<bar>k\<bar> \<le> 2 ^ 53"
  shows "binary64 (of_int k * 2 powi q) = of_int k * 2 powi q"
proof (cases "\<bar>k\<bar> < 2 ^ 53")
  case True
  then show ?thesis using binary64_fix_lt[OF assms(1)] by simp
next
  case False
  then have "k = 2 ^ 53 \<or> k = - (2 ^ 53)" using assms(2) by linarith
  then have e: "real_of_int k * 2 powi q = of_int (k div 2) * 2 powi (q + 1)"
    by (auto simp: p2_add)
  have "\<bar>k div 2\<bar> < 2 ^ 53" using \<open>k = 2 ^ 53 \<or> k = - (2 ^ 53)\<close> by auto
  moreover have "- 1074 \<le> q + 1" using assms(1) by simp
  ultimately show ?thesis unfolding e by (intro binary64_fix_lt)
qed

lemma is_doubleI: "- 1074 \<le> q \<Longrightarrow> \<bar>k\<bar> \<le> 2 ^ 53 \<Longrightarrow> x = of_int k * 2 powi q \<Longrightarrow> is_double x"
  using binary64_fix[of q k] by (simp add: is_double_def)

lemma rhe_abs_le:
  assumes "\<bar>z\<bar> \<le> of_int n"
  shows "\<bar>rhe z\<bar> \<le> n"
proof -
  have "rhe z \<le> n" using assms by (intro rhe_le) linarith
  moreover have "- n \<le> rhe z" using assms by (intro rhe_ge) simp
  ultimately show ?thesis by linarith
qed

lemma binary64_mantissa: "x \<noteq> 0 \<Longrightarrow> \<bar>rhe (x / 2 powi quantum x)\<bar> \<le> 2 ^ 53"
proof -
  assume x: "x \<noteq> 0"
  have "\<bar>x\<bar> / 2 powi quantum x \<le> 2 powi 53"
    using quantum_upper[OF x] by (intro p2_div_le) simp
  then have "\<bar>x / 2 powi quantum x\<bar> \<le> of_int (2 ^ 53)" by simp
  then show ?thesis by (rule rhe_abs_le)
qed

lemma binary64_idem: "binary64 (binary64 x) = binary64 x"
proof (cases "x = 0")
  case True
  then show ?thesis by (simp add: binary64_0)
next
  case False
  show ?thesis
    unfolding binary64_def[of x]
    by (rule binary64_fix[OF quantum_ge binary64_mantissa[OF False]])
qed

lemma is_double_binary64: "is_double (binary64 x)"
  by (simp add: is_double_def binary64_idem)

lemma binary64_err: "\<bar>binary64 x - x\<bar> \<le> 2 powi (quantum x - 1)"
proof -
  define q where "q = quantum x"
  define z where "z = x / 2 powi q"
  have x: "x = z * 2 powi q" by (simp add: z_def)
  have "binary64 x - x = (of_int (rhe z) - z) * 2 powi q"
    by (simp add: binary64_def q_def[symmetric] z_def[symmetric] algebra_simps x[symmetric])
  then have "\<bar>binary64 x - x\<bar> = \<bar>of_int (rhe z) - z\<bar> * 2 powi q"
    by (simp add: abs_mult)
  also have "\<dots> \<le> (1 / 2) * 2 powi q"
    using rhe_err[of z] by (intro mult_right_mono) simp_all
  also have "\<dots> = 2 powi (q - 1)"
    by (simp add: power_int_diff)
  finally show ?thesis by (simp add: q_def)
qed

lemma binary64_rel_err: "\<bar>binary64 x - x\<bar> \<le> \<bar>x\<bar> / 2 ^ 53 + 1 / 2 ^ 1075"
proof (cases "x = 0")
  case True
  then show ?thesis by (simp add: binary64_0)
next
  case False
  show ?thesis
  proof (cases "quantum x = - 1074")
    case True
    have "\<bar>binary64 x - x\<bar> \<le> 2 powi (- 1075)" using binary64_err[of x] True by simp
    also have "\<dots> = 1 / 2 ^ 1075" by (simp add: power_int_minus_divide)
    finally show ?thesis using abs_ge_zero[of x]
      by (smt (verit) divide_nonneg_pos zero_less_numeral zero_less_power)
  next
    case False2: False
    then have "- 1074 < quantum x" using quantum_ge[of x] by linarith
    then have "2 powi (quantum x + 52) \<le> \<bar>x\<bar>" using quantum_lower[OF False] by simp
    then have "2 powi (quantum x - 1) * 2 ^ 53 \<le> \<bar>x\<bar>"
      by (simp add: power_int_diff p2_add)
    then have "2 powi (quantum x - 1) \<le> \<bar>x\<bar> / 2 ^ 53"
      by (simp add: pos_le_divide_eq)
    moreover have "(0::real) \<le> bnd" if "bnd = 1 / 2 ^ 1075" for bnd using that by simp
    ultimately show ?thesis using binary64_err[of x]
      by (smt (verit, best))
  qed
qed

lemma binary64_eval:
  assumes "- 1074 \<le> q" "\<bar>x\<bar> < 2 powi (q + 53)" "q = - 1074 \<or> 2 powi (q + 52) \<le> \<bar>x\<bar>" "x \<noteq> 0"
    and "rhe (x / 2 powi q) = k"
  shows "binary64 x = of_int k * 2 powi q"
  using quantum_eqI[OF assms(1-4)] assms(5) by (simp add: binary64_def)

lemma m01: "binary64 0.1 = 3602879701896397 / 36028797018963968"
  by (subst binary64_eval[of "- 56" _ 7205759403792794]) (simp_all add: rhe_def)

lemma m02: "binary64 0.2 = 3602879701896397 / 18014398509481984"
  by (subst binary64_eval[of "- 55" _ 7205759403792794]) (simp_all add: rhe_def)

lemma m08: "binary64 0.8 = 3602879701896397 / 4503599627370496"
  by (subst binary64_eval[of "- 53" _ 7205759403792794]) (simp_all add: rhe_def)

subsection \<open>Scaling a rounded difference by a draw\<close>

text \<open>
  For doubles \<open>a \<le> b\<close> and a draw \<open>u\<close> below 1, the rounded product of \<open>u\<close> and the rounded
  difference \<open>b - a\<close> does not exceed the exact difference: a draw is at most \<open>1 - 1 / 2 ^ 53\<close>,
  which outweighs the rounding of the difference.
\<close>

lemma rhe_below_half:
  assumes "z < of_int n - 1 / 2"
  shows "rhe z \<le> n - 1"
proof -
  have "z < of_int n" using assms by linarith
  then have f: "\<lfloor>z\<rfloor> \<le> n - 1" by linarith
  show ?thesis
  proof (cases "\<lfloor>z\<rfloor> = n - 1")
    case True
    then have "z - of_int \<lfloor>z\<rfloor> < 1 / 2" using assms by simp
    then show ?thesis using True by (simp add: rhe_def)
  next
    case False
    then show ?thesis using f rhe_bounds[of z] by linarith
  qed
qed

lemma double_repr: "is_double d \<Longrightarrow> d = of_int (rhe (d / 2 powi quantum d)) * 2 powi quantum d"
  by (simp add: is_double_def binary64_def)

lemma double_grid_gen:
  assumes "is_double a" "e \<le> quantum a"
  shows "\<exists>n. a = of_int n * 2 powi e"
proof -
  define q where "q = quantum a"
  define k where "k = rhe (a / 2 powi q)"
  have a: "a = of_int k * 2 powi q" using double_repr[OF assms(1)] by (simp add: k_def q_def)
  have n: "0 \<le> q - e" using assms(2) by (simp add: q_def)
  have "(2::real) powi q = 2 powi (q - e) * 2 powi e"
    by (simp add: p2_add[symmetric])
  then have "a = of_int (k * 2 ^ nat (q - e)) * 2 powi e"
    unfolding a by (simp add: p2_nat[OF n])
  then show ?thesis by blast
qed

lemma double_grid: "is_double a \<Longrightarrow> \<exists>n. a = of_int n * 2 powi (- 1074)"
  by (rule double_grid_gen[OF _ quantum_ge])

lemma p2_normal_min: "(2::real) ^ 53 * 2 powi (- 1074) = 2 powi (- 1021)"
proof -
  have e: "(53::int) + (- 1074) = - 1021" by simp
  have "(2::real) powi (- 1021) = 2 powi 53 * 2 powi (- 1074)"
    unfolding e[symmetric] by (rule p2_add)
  also have "(2::real) powi 53 = 2 ^ 53" by (rule power_int_numeral)
  finally show ?thesis by (simp only:)
qed

lemma double_below_one:
  assumes "is_double u" "0 \<le> u" "u < 1"
  shows "u \<le> 1 - 1 / 2 ^ 53"
proof (cases "u < 1 / 2")
  case True
  then show ?thesis by simp
next
  case False
  then have h: "1 / 2 \<le> u" by simp
  then have u0: "u \<noteq> 0" by auto
  have q: "quantum u = - 53"
    using h assms(3) u0 by (intro quantum_eqI) (simp_all add: power_int_minus_divide)
  define k where "k = rhe (u / 2 powi quantum u)"
  have u: "u = of_int k / 2 ^ 53"
    using double_repr[OF assms(1)] by (simp add: k_def q power_int_minus_divide)
  then have "real_of_int k < 2 ^ 53" using assms(3) by (simp add: pos_divide_less_eq)
  then have "k < 2 ^ 53" by simp
  then have "k \<le> 2 ^ 53 - 1" by simp
  then have "real_of_int k \<le> 2 ^ 53 - 1" by simp
  then have "real_of_int k / 2 ^ 53 \<le> (2 ^ 53 - 1) / 2 ^ 53"
    by (intro divide_right_mono) simp_all
  then show ?thesis unfolding u by simp
qed

lemma scaled_below:
  assumes d: "is_double d" "2 powi (- 1021) \<le> d" and y: "0 \<le> y" "y \<le> d * (1 - 1 / 2 ^ 53)"
  shows "binary64 y < d"
proof -
  define q where "q = quantum d"
  define k where "k = rhe (d / 2 powi q)"
  have dpos: "0 < d" using d(2) p2_pos[of "- 1021"] by linarith
  then have d0: "d \<noteq> 0" and ad: "\<bar>d\<bar> = d" by auto
  have dk: "d = of_int k * 2 powi q" using double_repr[OF d(1)] by (simp add: k_def q_def)
  have "(2::real) powi (- 1021) < 2 powi (expo d + 1)"
    using d(2) expo_bounds(2)[OF d0] ad by linarith
  then have "- 1021 < expo d + 1" by (rule p2_less_cancel)
  then have q1: "- 1074 < q" by (simp add: q_def quantum_def)
  have lo: "2 powi (q + 52) \<le> d" using quantum_lower[OF d0] q1 ad by (simp add: q_def)
  then have "(2::real) ^ 52 * 2 powi q \<le> of_int k * 2 powi q"
    using dk by (simp add: p2_add mult.commute)
  then have "(2::real) ^ 52 \<le> of_int k" by simp
  then have k52: "2 ^ 52 \<le> k" by simp
  have half: "d / 2 ^ 53 = of_int k * 2 powi (q - 1) / 2 ^ 52"
    unfolding dk by (simp add: power_int_diff)
  show ?thesis
  proof (cases "k = 2 ^ 52")
    case True
    then have dd: "d = 2 ^ 52 * 2 powi q" using dk by simp
    have "d * (1 - 1 / 2 ^ 53) = of_int (2 ^ 53 - 1) * 2 powi (q - 1)"
      unfolding dd by (simp add: power_int_diff algebra_simps)
    then have "y \<le> of_int (2 ^ 53 - 1) * 2 powi (q - 1)" using y(2) by simp
    then have "binary64 y \<le> binary64 (of_int (2 ^ 53 - 1) * 2 powi (q - 1))"
      by (rule binary64_mono)
    also have "\<dots> = of_int (2 ^ 53 - 1) * 2 powi (q - 1)"
      using q1 by (intro binary64_fix) simp_all
    also have "\<dots> < d" unfolding dd by (simp add: power_int_diff)
    finally show ?thesis .
  next
    case False
    then have kgt: "2 ^ 52 < k" using k52 by simp
    then have "(2::real) ^ 52 < of_int k" by simp
    then have dgt: "2 powi (q + 52) < d"
      unfolding dk by (simp add: p2_add mult.commute)
    show ?thesis
    proof (cases "y < 2 powi (q + 52)")
      case True
      then have "binary64 y \<le> binary64 (of_int (2 ^ 52) * 2 powi q)"
        by (intro binary64_mono) (simp add: p2_add mult.commute)
      also have "\<dots> = of_int (2 ^ 52) * 2 powi q"
        using q1 by (intro binary64_fix) simp_all
      also have "\<dots> < d" using dgt by (simp add: p2_add mult.commute)
      finally show ?thesis .
    next
      case False
      then have ylo: "2 powi (q + 52) \<le> y" by simp
      then have ypos: "0 < y" using p2_pos[of "q + 52"] by linarith
      have "0 < d / 2 ^ 53" using dpos by simp
      then have yd: "y < d" using y(2) by (simp add: algebra_simps)
      have dup: "d < 2 powi (q + 53)" using quantum_upper[OF d0] ad by (simp add: q_def)
      have qy: "quantum y = q"
        using q1 ylo yd dup ypos by (intro quantum_eqI) simp_all
      have "y / 2 powi q \<le> d * (1 - 1 / 2 ^ 53) / 2 powi q"
        using y(2) by (intro divide_right_mono) simp_all
      also have "\<dots> = of_int k - of_int k / 2 ^ 53"
        unfolding dk by (simp add: algebra_simps)
      also have "\<dots> < of_int k - 1 / 2"
        using \<open>(2::real) ^ 52 < of_int k\<close> by simp
      finally have "rhe (y / 2 powi q) \<le> k - 1" by (rule rhe_below_half)
      then have "real_of_int (rhe (y / 2 powi q)) \<le> of_int k - 1"
        by linarith
      then have "real_of_int (rhe (y / 2 powi q)) * 2 powi q \<le> (of_int k - 1) * 2 powi q"
        by (intro mult_right_mono) simp_all
      also have "\<dots> < of_int k * 2 powi q" by (simp add: algebra_simps)
      finally show ?thesis unfolding binary64_def qy dk[symmetric] .
    qed
  qed
qed

lemma draw_scale_le:
  assumes "is_double a" "is_double b" "a \<le> b" "is_double u" "0 \<le> u" "u < 1"
  shows "binary64 (u * binary64 (b - a)) \<le> b - a"
proof -
  define x where "x = b - a"
  define d where "d = binary64 x"
  define t where "t = binary64 (u * d)"
  have x0: "0 \<le> x" using assms(3) by (simp add: x_def)
  have d0: "0 \<le> d" unfolding d_def using x0 by (rule binary64_nonneg)
  have "u * d \<le> 1 * d" using assms(6) d0 by (intro mult_right_mono) simp_all
  then have "t \<le> binary64 d" unfolding t_def by (intro binary64_mono) simp
  then have td: "t \<le> d" by (simp add: d_def binary64_idem)
  have "t \<le> x"
  proof (cases "d \<le> x")
    case True
    then show ?thesis using td by linarith
  next
    case False
    then have xd: "x < d" by simp
    obtain na where na: "a = of_int na * 2 powi (- 1074)" using double_grid[OF assms(1)] by blast
    obtain nb where nb: "b = of_int nb * 2 powi (- 1074)" using double_grid[OF assms(2)] by blast
    define n where "n = nb - na"
    have xn: "x = of_int n * 2 powi (- 1074)"
      unfolding x_def na nb n_def by (simp only: of_int_diff left_diff_distrib)
    have "\<not> \<bar>n\<bar> \<le> 2 ^ 53"
    proof
      assume "\<bar>n\<bar> \<le> 2 ^ 53"
      then have "binary64 x = x" unfolding xn by (intro binary64_fix order_refl)
      then show False using xd by (simp add: d_def)
    qed
    moreover have "0 \<le> n"
    proof -
      have "0 \<le> of_int n * (2::real) powi (- 1074)" using x0 xn by (simp only:)
      then have "(0::real) \<le> of_int n"
        using p2_pos[of "- 1074"] by (simp only: zero_le_mult_iff) linarith
      then show ?thesis by simp
    qed
    ultimately have "2 ^ 53 < n" by linarith
    then have "(2::real) ^ 53 < of_int n" by simp
    then have "2 ^ 53 * 2 powi (- 1074) < of_int n * (2::real) powi (- 1074)"
      by (intro mult_strict_right_mono p2_pos)
    then have "2 powi (- 1021) < x"
      unfolding xn p2_normal_min .
    then have dl: "2 powi (- 1021) \<le> d" using xd by linarith
    have "u * d \<le> (1 - 1 / 2 ^ 53) * d"
      using double_below_one[OF assms(4-6)] d0 by (intro mult_right_mono) simp_all
    then have "u * d \<le> d * (1 - 1 / 2 ^ 53)" by (simp add: mult.commute)
    moreover have "0 \<le> u * d" using assms(5) d0 by simp
    moreover have "is_double d" by (simp add: d_def is_double_binary64)
    ultimately have lt: "t < d" unfolding t_def using dl by (intro scaled_below)
    show ?thesis
    proof (rule ccontr)
      assume "\<not> t \<le> x"
      then have "x \<le> t" by simp
      then have "binary64 x \<le> binary64 t" by (rule binary64_mono)
      then have "d \<le> t" by (simp add: d_def t_def binary64_idem)
      then show False using lt by simp
    qed
  qed
  then show ?thesis by (simp add: t_def d_def x_def)
qed

section \<open>Properties of the pad in double arithmetic\<close>

subsection \<open>The pad in terms of its local constants\<close>

lemma generateRandomPad64_unfold:
  "generateRandomPad64 bbox g =
     (\<lparr>pad_id = fst (generateRandomId64 (sdrop 5 g)),
       coordinates =
         [\<lparr>coord_x = sub64 (centerX64 bbox (g !! 0)) (halfSize64 bbox (g !! 2)),
           coord_y = sub64 (centerY64 bbox (g !! 1)) (halfSize64 bbox (g !! 2))\<rparr>,
          \<lparr>coord_x = add64 (centerX64 bbox (g !! 0)) (halfSize64 bbox (g !! 2)),
           coord_y = sub64 (centerY64 bbox (g !! 1)) (halfSize64 bbox (g !! 2))\<rparr>,
          \<lparr>coord_x = add64 (centerX64 bbox (g !! 0)) (halfSize64 bbox (g !! 2)),
           coord_y = add64 (centerY64 bbox (g !! 1)) (halfSize64 bbox (g !! 2))\<rparr>,
          \<lparr>coord_x = sub64 (centerX64 bbox (g !! 0)) (halfSize64 bbox (g !! 2)),
           coord_y = add64 (centerY64 bbox (g !! 1)) (halfSize64 bbox (g !! 2))\<rparr>],
       elevation = add64 (pos_z (min_pt bbox)) (mul64 (g !! 3) (zRange64 bbox)),
       slopePercentage = Math_floor (add64 10 (mul64 (g !! 4) 100)),
       applyGrade = True\<rparr>,
      snd (generateRandomId64 (sdrop 5 g)))"
  unfolding generateRandomPad64_def Let_def Math_random_def split_beta fst_conv snd_conv
    snth_numerals sdrop_5 xRange64_def yRange64_def zRange64_def centerX64_def centerY64_def
    maxSize64_def pad_size64_def halfSize64_def
  by simp

lemma coordinates_generateRandomPad64:
  "coordinates (fst (generateRandomPad64 bbox g)) =
         [\<lparr>coord_x = sub64 (centerX64 bbox (g !! 0)) (halfSize64 bbox (g !! 2)),
           coord_y = sub64 (centerY64 bbox (g !! 1)) (halfSize64 bbox (g !! 2))\<rparr>,
          \<lparr>coord_x = add64 (centerX64 bbox (g !! 0)) (halfSize64 bbox (g !! 2)),
           coord_y = sub64 (centerY64 bbox (g !! 1)) (halfSize64 bbox (g !! 2))\<rparr>,
          \<lparr>coord_x = add64 (centerX64 bbox (g !! 0)) (halfSize64 bbox (g !! 2)),
           coord_y = add64 (centerY64 bbox (g !! 1)) (halfSize64 bbox (g !! 2))\<rparr>,
          \<lparr>coord_x = sub64 (centerX64 bbox (g !! 0)) (halfSize64 bbox (g !! 2)),
           coord_y = add64 (centerY64 bbox (g !! 1)) (halfSize64 bbox (g !! 2))\<rparr>]"
  by (simp add: generateRandomPad64_unfold)

lemma elevation_generateRandomPad64:
  "elevation (fst (generateRandomPad64 bbox g)) =
     add64 (pos_z (min_pt bbox)) (mul64 (g !! 3) (zRange64 bbox))"
  by (simp add: generateRandomPad64_unfold)

lemma double_draws_snth: "double_draws g \<Longrightarrow> is_double (g !! n) \<and> 0 \<le> g !! n \<and> g !! n < 1"
  unfolding double_draws_def by simp

lemma eta64_pos: "0 < eta64"
  by (simp add: eta64_def)

lemma binary64_abs_err: "\<bar>binary64 x - x\<bar> \<le> \<bar>x\<bar> / 2 ^ 53 + eta64"
  using binary64_rel_err[of x] by (simp only: eta64_def)

lemma binary64_int: "\<bar>k\<bar> \<le> 2 ^ 53 \<Longrightarrow> binary64 (of_int k) = of_int k"
  using binary64_fix[of 0 k] by simp

lemma binary64_numeral [simp]:
  "numeral n \<le> (9007199254740992::int) \<Longrightarrow> binary64 (numeral n) = numeral n"
  using binary64_int[of "numeral n"] by simp

lemma binary64_1 [simp]: "binary64 1 = 1"
  using binary64_int[of 1] by simp

lemma pad_size64_bounds: "10 \<le> pad_size64 bbox u \<and> pad_size64 bbox u \<le> 50"
  by (simp add: pad_size64_def)

lemma is_double_pad_size64: "is_double (pad_size64 bbox u)"
  unfolding pad_size64_def mul64_def
  by (simp add: max_def min_def is_double_binary64) (simp add: is_double_def)

lemma half_double:
  assumes "is_double s" "1 \<le> \<bar>s\<bar>"
  shows "is_double (s / 2)"
proof -
  have s0: "s \<noteq> 0" using assms(2) by auto
  define q where "q = quantum s"
  define k where "k = rhe (s / 2 powi q)"
  have s: "s = of_int k * 2 powi q" using double_repr[OF assms(1)] by (simp add: k_def q_def)
  have "(2::real) powi 0 < 2 powi (expo s + 1)"
    using expo_bounds(2)[OF s0] assms(2) by simp
  then have "0 < expo s + 1" by (rule p2_less_cancel)
  then have q: "- 1074 \<le> q - 1" by (simp add: q_def quantum_def)
  have k: "\<bar>k\<bar> \<le> 2 ^ 53" unfolding k_def q_def by (rule binary64_mantissa[OF s0])
  have "s / 2 = of_int k * 2 powi (q - 1)" unfolding s by (simp add: power_int_diff)
  then show ?thesis using is_doubleI[OF q k] by blast
qed

lemma halfSize64_half: "halfSize64 bbox u = pad_size64 bbox u / 2"
proof -
  have "1 \<le> \<bar>pad_size64 bbox u\<bar>" using pad_size64_bounds[of bbox u] by linarith
  then have "is_double (pad_size64 bbox u / 2)"
    by (rule half_double[OF is_double_pad_size64])
  then show ?thesis by (simp add: halfSize64_def div64_def is_double_def)
qed

lemma halfSize64_bounds: "5 \<le> halfSize64 bbox u \<and> halfSize64 bbox u \<le> 25"
  using pad_size64_bounds[of bbox u] by (simp add: halfSize64_half)

subsection \<open>Rounding errors of the centre and the corners\<close>

lemma scale64: "sub64 1 (mul64 2 (binary64 0.1)) = 3602879701896397 / 4503599627370496"
proof -
  have a: "mul64 2 (binary64 0.1) = 3602879701896397 / 18014398509481984"
    unfolding mul64_def m01
    by (subst binary64_eval[of "- 55" _ 7205759403792794]) (simp_all add: rhe_def)
  show ?thesis
    unfolding a sub64_def
    by (subst binary64_eval[of "- 53" _ 7205759403792794]) (simp_all add: rhe_def)
qed

lemma nonneg_mul64: "0 \<le> x \<Longrightarrow> 0 \<le> y \<Longrightarrow> 0 \<le> mul64 x y"
  unfolding mul64_def by (intro binary64_nonneg) simp

lemma abs_err_upper: "\<bar>x - y\<bar> \<le> t \<Longrightarrow> x \<le> y + (t::real)"
  by linarith

lemma abs_err_lower: "\<bar>x - y\<bar> \<le> t \<Longrightarrow> y - (t::real) \<le> x"
  by linarith

lemma center_err:
  fixes a b r P L w Q B cx e :: real
  assumes ab: "a \<le> b" and e: "0 \<le> e"
    and r0: "0 \<le> r" and P0: "0 \<le> P" and Q0: "0 \<le> Q" and B0: "0 \<le> B"
    and r: "\<bar>r - (b - a)\<bar> \<le> \<bar>b - a\<bar> / 2 ^ 53 + e"
    and P: "\<bar>P - r * (3602879701896397 / 36028797018963968)\<bar>
              \<le> \<bar>r * (3602879701896397 / 36028797018963968)\<bar> / 2 ^ 53 + e"
    and L: "\<bar>L - (a + P)\<bar> \<le> \<bar>a + P\<bar> / 2 ^ 53 + e"
    and w: "0 \<le> w" "w \<le> r"
    and Q: "\<bar>Q - w\<bar> \<le> \<bar>w\<bar> / 2 ^ 53 + e"
    and B: "\<bar>B - Q * (3602879701896397 / 4503599627370496)\<bar>
              \<le> \<bar>Q * (3602879701896397 / 4503599627370496)\<bar> / 2 ^ 53 + e"
    and c: "\<bar>cx - (L + B)\<bar> \<le> \<bar>L + B\<bar> / 2 ^ 53 + e"
  shows "a + (b - a) / 10 - ((\<bar>a\<bar> + \<bar>b\<bar>) / 2 ^ 49 + 16 * e) \<le> cx"
    and "cx \<le> b - (b - a) / 10 + ((\<bar>a\<bar> + \<bar>b\<bar>) / 2 ^ 49 + 16 * e)"
proof -
  define R where "R = b - a"
  define M where "M = \<bar>a\<bar> + \<bar>b\<bar>"
  define A where "A = \<bar>a + P\<bar>"
  define S where "S = \<bar>L + B\<bar>"
  have R0: "0 \<le> R" and RM: "R \<le> M" and aM: "\<bar>a\<bar> \<le> M"
    using ab by (simp_all add: R_def M_def)
  have AR: "\<bar>b - a\<bar> = R" using ab by (simp add: R_def)
  have A1: "A \<le> M + P" using P0 aM unfolding A_def by linarith
  have r1: "r \<le> R + R / 9007199254740992 + e"
    using abs_err_upper[OF r] R0 unfolding R_def[symmetric] by simp
  have r2: "R - R / 9007199254740992 - e \<le> r"
    using abs_err_lower[OF r] R0 unfolding R_def[symmetric] by simp
  have P1: "P \<le> r / 10 + r / 4503599627370496 + e"
    using abs_err_upper[OF P] r0 by (simp add: abs_mult)
  have P2: "r / 10 - r / 4503599627370496 - e \<le> P"
    using abs_err_lower[OF P] r0 by (simp add: abs_mult)
  have L1: "L \<le> a + P + A / 9007199254740992 + e"
    using abs_err_upper[OF L] unfolding A_def by simp
  have L2: "a + P - A / 9007199254740992 - e \<le> L"
    using abs_err_lower[OF L] unfolding A_def by simp
  have Q1: "Q \<le> w + w / 9007199254740992 + e"
    using abs_err_upper[OF Q] w(1) by simp
  have B1: "B \<le> Q * (8 / 10) + Q / 4503599627370496 + e"
    using abs_err_upper[OF B] Q0 by (simp add: abs_mult)
  have c1: "cx \<le> L + B + S / 9007199254740992 + e"
    using abs_err_upper[OF c] unfolding S_def by simp
  have c2: "L + B - S / 9007199254740992 - e \<le> cx"
    using abs_err_lower[OF c] unfolding S_def by simp
  have S1: "S \<le> M + P + A / 9007199254740992 + e + B"
    unfolding S_def using L1 L2 B0 P0 aM A1 e by linarith
  have lo: "a + R / 10 - (M / 562949953421312 + 16 * e) \<le> cx"
    using c2 S1 A1 L2 P1 P2 r1 r2 B0 B1 Q1 w R0 RM e by linarith
  have hi: "cx \<le> a + R - R / 10 + (M / 562949953421312 + 16 * e)"
    using c1 S1 A1 L1 P1 r1 B1 Q1 Q0 w R0 RM e by linarith
  show "a + (b - a) / 10 - ((\<bar>a\<bar> + \<bar>b\<bar>) / 2 ^ 49 + 16 * e) \<le> cx"
    using lo by (simp add: R_def M_def)
  show "cx \<le> b - (b - a) / 10 + ((\<bar>a\<bar> + \<bar>b\<bar>) / 2 ^ 49 + 16 * e)"
    using hi by (simp add: R_def M_def)
qed

lemma corner_err:
  fixes a b r P L S h cx x0 x1 e :: real
  assumes ab: "a \<le> b" and e: "0 \<le> e"
    and r0: "0 \<le> r" and P0: "0 \<le> P" and S0: "0 \<le> S"
    and r: "\<bar>r - (b - a)\<bar> \<le> \<bar>b - a\<bar> / 2 ^ 53 + e"
    and P: "\<bar>P - r * (3602879701896397 / 36028797018963968)\<bar>
              \<le> \<bar>r * (3602879701896397 / 36028797018963968)\<bar> / 2 ^ 53 + e"
    and L: "\<bar>L - (a + P)\<bar> \<le> \<bar>a + P\<bar> / 2 ^ 53 + e"
    and S: "\<bar>S - r * (3602879701896397 / 18014398509481984)\<bar>
              \<le> \<bar>r * (3602879701896397 / 18014398509481984)\<bar> / 2 ^ 53 + e"
    and h: "0 \<le> h" "h \<le> S / 2"
    and cxL: "L \<le> cx"
    and cxU: "cx \<le> b - (b - a) / 10 + ((\<bar>a\<bar> + \<bar>b\<bar>) / 2 ^ 49 + 16 * e)"
    and x0: "\<bar>x0 - (cx - h)\<bar> \<le> \<bar>cx - h\<bar> / 2 ^ 53 + e"
    and x1: "\<bar>x1 - (cx + h)\<bar> \<le> \<bar>cx + h\<bar> / 2 ^ 53 + e"
  shows "a - 2 * ((\<bar>a\<bar> + \<bar>b\<bar>) / 2 ^ 49 + 16 * e) \<le> x0"
    and "x1 \<le> b + 2 * ((\<bar>a\<bar> + \<bar>b\<bar>) / 2 ^ 49 + 16 * e)"
proof -
  define R where "R = b - a"
  define M where "M = \<bar>a\<bar> + \<bar>b\<bar>"
  define A where "A = \<bar>a + P\<bar>"
  define C0 where "C0 = \<bar>cx - h\<bar>"
  define C1 where "C1 = \<bar>cx + h\<bar>"
  have R0: "0 \<le> R" and RM: "R \<le> M" and aM: "\<bar>a\<bar> \<le> M" and bM: "\<bar>b\<bar> \<le> M"
    using ab by (simp_all add: R_def M_def)
  have M0: "0 \<le> M" by (simp add: M_def)
  have A1: "A \<le> M + P" using P0 aM unfolding A_def by linarith
  have r1: "r \<le> R + R / 9007199254740992 + e"
    using abs_err_upper[OF r] R0 unfolding R_def[symmetric] by simp
  have P1: "P \<le> r / 10 + r / 4503599627370496 + e"
    using abs_err_upper[OF P] r0 by (simp add: abs_mult)
  have P2: "r / 10 - r / 4503599627370496 - e \<le> P"
    using abs_err_lower[OF P] r0 by (simp add: abs_mult)
  have L2: "a + P - A / 9007199254740992 - e \<le> L"
    using abs_err_lower[OF L] unfolding A_def by simp
  have S1: "S \<le> r / 5 + r / 2251799813685248 + e"
    using abs_err_upper[OF S] r0 by (simp add: abs_mult)
  have cU: "cx \<le> a + R - R / 10 + (M / 562949953421312 + 16 * e)"
    using cxU by (simp add: R_def M_def)
  have cL: "a - (M / 562949953421312 + 16 * e) \<le> cx"
    using cxL L2 A1 P0 P1 r1 R0 RM e M0 by linarith
  have hR: "h \<le> R / 10 + R / 1125899906842624 + e"
    using h S1 r1 R0 e by linarith
  have am: "a \<le> M" "- a \<le> M" "b \<le> M" "- b \<le> M" using aM bM by linarith+
  have aR: "a + R \<le> M" using am(3) by (simp add: R_def)
  have "a + R - R / 10 \<le> M" using aR R0 by linarith
  moreover have "M / 562949953421312 \<le> M" using M0 by simp
  ultimately have cx1: "cx \<le> 2 * M + 16 * e"
    using cU by linarith
  have cx2: "- cx \<le> 2 * M + 16 * e"
    using cL am(2) \<open>M / 562949953421312 \<le> M\<close> by linarith
  have hh: "h \<le> M + e" using hR R0 RM M0 by linarith
  have C0b: "C0 \<le> 3 * M + 17 * e"
    unfolding C0_def abs_le_iff using cx1 cx2 hh h(1) M0 e by linarith
  have C1b: "C1 \<le> 3 * M + 17 * e"
    unfolding C1_def abs_le_iff using cx1 cx2 hh h(1) M0 e by linarith
  have y0: "cx - h - C0 / 9007199254740992 - e \<le> x0"
    using abs_err_lower[OF x0] unfolding C0_def by simp
  have y1: "x1 \<le> cx + h + C1 / 9007199254740992 + e"
    using abs_err_upper[OF x1] unfolding C1_def by simp
  have s1: "r \<le> 2 * M + e" using r1 R0 RM by linarith
  have s2: "P \<le> r + e" using P1 r0 by linarith
  have s3: "A \<le> 3 * M + 2 * e" using A1 s1 s2 by linarith
  have s4: "a - r / 2251799813685248 - 3 * e - A / 9007199254740992 \<le> cx - h"
    using cxL L2 P2 h(2) S1 e by linarith
  have s5: "r / 2251799813685248 \<le> M / 1125899906842624 + e"
    using s1 r0 M0 e by linarith
  have s6: "A / 9007199254740992 \<le> M / 1125899906842624 + e"
    using s3 M0 e by linarith
  have s7: "C0 / 9007199254740992 \<le> M / 1125899906842624 + e"
    using C0b M0 e by linarith
  have lo: "a - 2 * (M / 562949953421312 + 16 * e) \<le> x0"
    using y0 s4 s5 s6 s7 M0 e by argo
  have s8: "C1 / 9007199254740992 \<le> M / 1125899906842624 + e"
    using C1b M0 e by linarith
  have s9: "R / 1125899906842624 \<le> M / 1125899906842624"
    using RM by simp
  have hi: "x1 \<le> a + R + 2 * (M / 562949953421312 + 16 * e)"
    using y1 s8 s9 cU hR M0 e by argo
  show "a - 2 * ((\<bar>a\<bar> + \<bar>b\<bar>) / 2 ^ 49 + 16 * e) \<le> x0"
    using lo by (simp add: M_def)
  show "x1 \<le> b + 2 * ((\<bar>a\<bar> + \<bar>b\<bar>) / 2 ^ 49 + 16 * e)"
    using hi by (simp add: R_def M_def)
qed

lemma center64_slack:
  assumes "a \<le> b" "0 \<le> u" "u \<le> 1"
  shows "a + (b - a) / 10 - slack64 a b
           \<le> add64 (add64 a (mul64 (sub64 b a) (binary64 0.1)))
                (mul64 (mul64 u (sub64 b a)) (sub64 1 (mul64 2 (binary64 0.1))))"
    and "add64 (add64 a (mul64 (sub64 b a) (binary64 0.1)))
                (mul64 (mul64 u (sub64 b a)) (sub64 1 (mul64 2 (binary64 0.1))))
           \<le> b - (b - a) / 10 + slack64 a b"
proof -
  define r where "r = binary64 (b - a)"
  define P where "P = binary64 (r * (3602879701896397 / 36028797018963968))"
  define L where "L = binary64 (a + P)"
  define Q where "Q = binary64 (u * r)"
  define B where "B = binary64 (Q * (3602879701896397 / 4503599627370496))"
  define cx where "cx = binary64 (L + B)"
  have c: "add64 (add64 a (mul64 (sub64 b a) (binary64 0.1)))
                (mul64 (mul64 u (sub64 b a)) (sub64 1 (mul64 2 (binary64 0.1)))) = cx"
    unfolding scale64 unfolding m01 add64_def mul64_def sub64_def
      cx_def B_def Q_def L_def P_def r_def ..
  have r0: "0 \<le> r" unfolding r_def using assms(1) by (intro binary64_nonneg) simp
  have P0: "0 \<le> P" unfolding P_def using r0 by (intro binary64_nonneg) simp
  have w: "0 \<le> u * r" "u * r \<le> r"
    using assms(2,3) r0 by (simp_all add: mult_left_le_one_le)
  have Q0: "0 \<le> Q" unfolding Q_def using w(1) by (rule binary64_nonneg)
  have B0: "0 \<le> B" unfolding B_def using Q0 by (intro binary64_nonneg) simp
  note res = center_err[OF assms(1) less_imp_le[OF eta64_pos] r0 P0 Q0 B0
      binary64_abs_err[of "b - a", folded r_def]
      binary64_abs_err[of "r * (3602879701896397 / 36028797018963968)", folded P_def]
      binary64_abs_err[of "a + P", folded L_def]
      w
      binary64_abs_err[of "u * r", folded Q_def]
      binary64_abs_err[of "Q * (3602879701896397 / 4503599627370496)", folded B_def]
      binary64_abs_err[of "L + B", folded cx_def]]
  show "a + (b - a) / 10 - slack64 a b
           \<le> add64 (add64 a (mul64 (sub64 b a) (binary64 0.1)))
                (mul64 (mul64 u (sub64 b a)) (sub64 1 (mul64 2 (binary64 0.1))))"
    unfolding c slack64_def by (rule res(1))
  show "add64 (add64 a (mul64 (sub64 b a) (binary64 0.1)))
                (mul64 (mul64 u (sub64 b a)) (sub64 1 (mul64 2 (binary64 0.1))))
           \<le> b - (b - a) / 10 + slack64 a b"
    unfolding c slack64_def by (rule res(2))
qed

lemma lit64_nonneg: "0 \<le> binary64 0.2" "0 \<le> binary64 0.8"
  by (rule binary64_nonneg, simp)+

lemma corner64_slack:
  assumes "a \<le> b" "0 \<le> u" "u \<le> 1" "0 \<le> h"
    and "h \<le> mul64 (sub64 b a) (binary64 0.2) / 2"
  shows "a - 2 * slack64 a b
           \<le> sub64 (add64 (add64 a (mul64 (sub64 b a) (binary64 0.1)))
                  (mul64 (mul64 u (sub64 b a)) (sub64 1 (mul64 2 (binary64 0.1))))) h"
    and "add64 (add64 (add64 a (mul64 (sub64 b a) (binary64 0.1)))
                  (mul64 (mul64 u (sub64 b a)) (sub64 1 (mul64 2 (binary64 0.1))))) h
           \<le> b + 2 * slack64 a b"
proof -
  define c where "c = add64 (add64 a (mul64 (sub64 b a) (binary64 0.1)))
                  (mul64 (mul64 u (sub64 b a)) (sub64 1 (mul64 2 (binary64 0.1))))"
  define r where "r = binary64 (b - a)"
  define P where "P = binary64 (r * (3602879701896397 / 36028797018963968))"
  define L where "L = binary64 (a + P)"
  define B where "B = mul64 (mul64 u (sub64 b a)) (sub64 1 (mul64 2 (binary64 0.1)))"
  define S where "S = binary64 (r * (3602879701896397 / 18014398509481984))"
  have cLB: "c = binary64 (L + B)"
    unfolding c_def B_def[symmetric] unfolding add64_def mul64_def sub64_def m01
      L_def P_def r_def ..
  have hS: "h \<le> S / 2"
    using assms(5) unfolding mul64_def sub64_def m02 S_def r_def .
  have r0: "0 \<le> r" unfolding r_def using assms(1) by (intro binary64_nonneg) simp
  have P0: "0 \<le> P" unfolding P_def using r0 by (intro binary64_nonneg) simp
  have S0: "0 \<le> S" unfolding S_def using r0 by (intro binary64_nonneg) simp
  have "0 \<le> sub64 b a" using r0 by (simp add: sub64_def r_def)
  then have "0 \<le> mul64 u (sub64 b a)" by (rule nonneg_mul64[OF assms(2)])
  then have B0: "0 \<le> B" unfolding B_def scale64 by (rule nonneg_mul64) simp
  have "binary64 L \<le> binary64 (L + B)" using B0 by (intro binary64_mono) simp
  then have cxL: "L \<le> c" unfolding cLB by (simp add: L_def binary64_idem)
  have cxU: "c \<le> b - (b - a) / 10 + ((\<bar>a\<bar> + \<bar>b\<bar>) / 2 ^ 49 + 16 * eta64)"
    using center64_slack(2)[OF assms(1-3)] unfolding c_def slack64_def .
  note res = corner_err[OF assms(1) less_imp_le[OF eta64_pos] r0 P0 S0
      binary64_abs_err[of "b - a", folded r_def]
      binary64_abs_err[of "r * (3602879701896397 / 36028797018963968)", folded P_def]
      binary64_abs_err[of "a + P", folded L_def]
      binary64_abs_err[of "r * (3602879701896397 / 18014398509481984)", folded S_def]
      assms(4) hS cxL cxU
      binary64_abs_err[of "c - h"] binary64_abs_err[of "c + h"]]
  show "a - 2 * slack64 a b
           \<le> sub64 (add64 (add64 a (mul64 (sub64 b a) (binary64 0.1)))
                  (mul64 (mul64 u (sub64 b a)) (sub64 1 (mul64 2 (binary64 0.1))))) h"
    unfolding c_def[symmetric] slack64_def sub64_def[of c h] by (rule res(1))
  show "add64 (add64 (add64 a (mul64 (sub64 b a) (binary64 0.1)))
                  (mul64 (mul64 u (sub64 b a)) (sub64 1 (mul64 2 (binary64 0.1))))) h
           \<le> b + 2 * slack64 a b"
    unfolding c_def[symmetric] slack64_def add64_def[of c h] by (rule res(2))
qed

lemma sub64_le_add64: "0 \<le> h \<Longrightarrow> sub64 c h \<le> add64 c h"
  unfolding sub64_def add64_def by (intro binary64_mono) simp

lemma step_50: "mul64 50 (binary64 0.2) = 10"
  unfolding mul64_def m02
  by (subst binary64_eval[of "- 49" _ 5629499534213120]) (simp_all add: rhe_def)

lemma step_one: "add64 (binary64 0.2) (binary64 0.8) = 1"
  unfolding add64_def m02 m08
  by (subst binary64_eval[of "- 52" _ 4503599627370496]) (simp_all add: rhe_def)

lemma factor64_le_one:
  assumes "0 \<le> u" "u \<le> 1"
  shows "0 \<le> add64 (binary64 0.2) (mul64 u (binary64 0.8))"
    and "add64 (binary64 0.2) (mul64 u (binary64 0.8)) \<le> 1"
proof -
  note p = lit64_nonneg(1) and c = lit64_nonneg(2)
  have m0: "0 \<le> mul64 u (binary64 0.8)" using assms(1) c by (rule nonneg_mul64)
  show "0 \<le> add64 (binary64 0.2) (mul64 u (binary64 0.8))"
    unfolding add64_def using p m0 by (intro binary64_nonneg) simp
  have "u * binary64 0.8 \<le> 1 * binary64 0.8" using assms(2) c by (intro mult_right_mono)
  then have "mul64 u (binary64 0.8) \<le> binary64 (binary64 0.8)"
    unfolding mul64_def by (intro binary64_mono) simp
  then have "mul64 u (binary64 0.8) \<le> binary64 0.8" by (simp add: binary64_idem)
  then have "add64 (binary64 0.2) (mul64 u (binary64 0.8))
      \<le> add64 (binary64 0.2) (binary64 0.8)"
    unfolding add64_def by (intro binary64_mono) simp
  then show "add64 (binary64 0.2) (mul64 u (binary64 0.8)) \<le> 1" unfolding step_one .
qed

lemma pad_size64_le_maxSize64:
  assumes "50 \<le> min (xRange64 bbox) (yRange64 bbox)" "0 \<le> u" "u \<le> 1"
  shows "pad_size64 bbox u \<le> maxSize64 bbox"
proof -
  define f where "f = add64 (binary64 0.2) (mul64 u (binary64 0.8))"
  have f: "0 \<le> f" "f \<le> 1" using factor64_le_one[OF assms(2,3)] by (simp_all add: f_def)
  note p = lit64_nonneg(1)
  have "50 * binary64 0.2 \<le> min (xRange64 bbox) (yRange64 bbox) * binary64 0.2"
    using assms(1) p by (intro mult_right_mono)
  then have "mul64 50 (binary64 0.2) \<le> maxSize64 bbox"
    unfolding maxSize64_def mul64_def by (rule binary64_mono)
  then have ten: "10 \<le> maxSize64 bbox" unfolding step_50 .
  have d: "is_double (maxSize64 bbox)"
    by (simp add: maxSize64_def mul64_def is_double_binary64)
  have "maxSize64 bbox * f \<le> maxSize64 bbox * 1" using f(2) ten by (intro mult_left_mono) simp_all
  then have "binary64 (maxSize64 bbox * f) \<le> binary64 (maxSize64 bbox)"
    by (intro binary64_mono) simp
  then have "mul64 (maxSize64 bbox) f \<le> maxSize64 bbox"
    using d by (simp add: mul64_def is_double_def)
  then show ?thesis unfolding pad_size64_def f_def[symmetric] using ten by simp
qed

subsection \<open>Concrete values\<close>

lemma m02s: "binary64 (1 / 5) = 3602879701896397 / 18014398509481984"
  using m02 by simp

lemma m08s: "binary64 (4 / 5) = 3602879701896397 / 4503599627370496"
  using m08 by simp

lemma m501: "binary64 50.1 = 7050948166601933 / 140737488355328"
  by (subst binary64_eval[of "- 47" _ 7050948166601933]) (simp_all add: rhe_def)

lemma ev0 [ev64]: "sub64 100 0 = 100"
  unfolding sub64_def
  by (subst binary64_eval[of "- 46" _ 7036874417766400]) (simp_all add: rhe_def)

lemma ev1 [ev64]: "mul64 100 (3602879701896397 / 36028797018963968) = 10"
  unfolding mul64_def
  by (subst binary64_eval[of "- 49" _ 5629499534213120]) (simp_all add: rhe_def)

lemma ev2 [ev64]: "add64 0 10 = 10"
  unfolding add64_def
  by (subst binary64_eval[of "- 49" _ 5629499534213120]) (simp_all add: rhe_def)

lemma ev3 [ev64]: "mul64 (1 / 32) 100 = (25 / 8)"
  unfolding mul64_def
  by (subst binary64_eval[of "- 51" _ 7036874417766400]) (simp_all add: rhe_def)

lemma ev4 [ev64]: "mul64 2 (3602879701896397 / 36028797018963968) = (3602879701896397 / 18014398509481984)"
  unfolding mul64_def
  by (subst binary64_eval[of "- 55" _ 7205759403792794]) (simp_all add: rhe_def)

lemma ev5 [ev64]: "sub64 1 (3602879701896397 / 18014398509481984) = (3602879701896397 / 4503599627370496)"
  unfolding sub64_def
  by (subst binary64_eval[of "- 53" _ 7205759403792794]) (simp_all add: rhe_def)

lemma ev6 [ev64]: "mul64 (25 / 8) (3602879701896397 / 4503599627370496) = (5 / 2)"
  unfolding mul64_def
  by (subst binary64_eval[of "- 51" _ 5629499534213120]) (simp_all add: rhe_def)

lemma ev7 [ev64]: "add64 10 (5 / 2) = (25 / 2)"
  unfolding add64_def
  by (subst binary64_eval[of "- 49" _ 7036874417766400]) (simp_all add: rhe_def)

lemma ev8 [ev64]: "mul64 100 (3602879701896397 / 18014398509481984) = 20"
  unfolding mul64_def
  by (subst binary64_eval[of "- 48" _ 5629499534213120]) (simp_all add: rhe_def)

lemma ev9 [ev64]: "mul64 (1 / 32) (3602879701896397 / 4503599627370496) = (3602879701896397 / 144115188075855872)"
  unfolding mul64_def
  by (subst binary64_eval[of "- 58" _ 7205759403792794]) (simp_all add: rhe_def)

lemma ev10 [ev64]: "add64 (3602879701896397 / 18014398509481984) (3602879701896397 / 144115188075855872) = (8106479329266893 / 36028797018963968)"
  unfolding add64_def
  by (subst binary64_eval[of "- 55" _ 8106479329266893]) (simp_all add: rhe_def)

lemma ev11 [ev64]: "mul64 20 (8106479329266893 / 36028797018963968) = (9 / 2)"
  unfolding mul64_def
  by (subst binary64_eval[of "- 50" _ 5066549580791808]) (simp_all add: rhe_def)

lemma ev12 [ev64]: "div64 10 2 = 5"
  unfolding div64_def
  by (subst binary64_eval[of "- 50" _ 5629499534213120]) (simp_all add: rhe_def)

lemma ev13 [ev64]: "sub64 (25 / 2) 5 = (15 / 2)"
  unfolding sub64_def
  by (subst binary64_eval[of "- 50" _ 8444249301319680]) (simp_all add: rhe_def)

lemma ev14 [ev64]: "add64 (25 / 2) 5 = (35 / 2)"
  unfolding add64_def
  by (subst binary64_eval[of "- 48" _ 4925812092436480]) (simp_all add: rhe_def)

lemma ev15 [ev64]: "mul64 0 100 = 0"
  by (simp add: mul64_def binary64_0)

lemma ev16 [ev64]: "mul64 0 (3602879701896397 / 4503599627370496) = 0"
  by (simp add: mul64_def binary64_0)

lemma ev17 [ev64]: "add64 10 0 = 10"
  unfolding add64_def
  by (subst binary64_eval[of "- 49" _ 5629499534213120]) (simp_all add: rhe_def)

lemma ev18 [ev64]: "mul64 (1 / 2) 100 = 50"
  unfolding mul64_def
  by (subst binary64_eval[of "- 47" _ 7036874417766400]) (simp_all add: rhe_def)

lemma ev19 [ev64]: "mul64 50 (3602879701896397 / 4503599627370496) = 40"
  unfolding mul64_def
  by (subst binary64_eval[of "- 47" _ 5629499534213120]) (simp_all add: rhe_def)

lemma ev20 [ev64]: "add64 10 40 = 50"
  unfolding add64_def
  by (subst binary64_eval[of "- 47" _ 7036874417766400]) (simp_all add: rhe_def)

lemma ev21 [ev64]: "mul64 (1 / 2) (3602879701896397 / 4503599627370496) = (3602879701896397 / 9007199254740992)"
  unfolding mul64_def
  by (subst binary64_eval[of "- 54" _ 7205759403792794]) (simp_all add: rhe_def)

lemma ev22 [ev64]: "add64 (3602879701896397 / 18014398509481984) (3602879701896397 / 9007199254740992) = (1351079888211149 / 2251799813685248)"
  unfolding add64_def
  by (subst binary64_eval[of "- 53" _ 5404319552844596]) (simp_all add: rhe_def)

lemma ev23 [ev64]: "mul64 20 (1351079888211149 / 2251799813685248) = (6755399441055745 / 562949953421312)"
  unfolding mul64_def
  by (subst binary64_eval[of "- 49" _ 6755399441055745]) (simp_all add: rhe_def)

lemma ev24 [ev64]: "div64 (6755399441055745 / 562949953421312) 2 = (6755399441055745 / 1125899906842624)"
  unfolding div64_def
  by (subst binary64_eval[of "- 50" _ 6755399441055745]) (simp_all add: rhe_def)

lemma ev25 [ev64]: "sub64 10 (6755399441055745 / 1125899906842624) = (4503599627370495 / 1125899906842624)"
  unfolding sub64_def
  by (subst binary64_eval[of "- 51" _ 9007199254740990]) (simp_all add: rhe_def)

lemma ev26 [ev64]: "add64 10 (6755399441055745 / 1125899906842624) = 16"
  unfolding add64_def
  by (subst binary64_eval[of "- 48" _ 4503599627370496]) (simp_all add: rhe_def)

lemma ev27 [ev64]: "sub64 50 (6755399441055745 / 1125899906842624) = 44"
  unfolding sub64_def
  by (subst binary64_eval[of "- 47" _ 6192449487634432]) (simp_all add: rhe_def)

lemma ev28 [ev64]: "add64 50 (6755399441055745 / 1125899906842624) = 56"
  unfolding add64_def
  by (subst binary64_eval[of "- 47" _ 7881299347898368]) (simp_all add: rhe_def)

lemma ev29 [ev64]: "sub64 20 0 = 20"
  unfolding sub64_def
  by (subst binary64_eval[of "- 48" _ 5629499534213120]) (simp_all add: rhe_def)

lemma ev30 [ev64]: "mul64 (1 / 2) 20 = 10"
  unfolding mul64_def
  by (subst binary64_eval[of "- 49" _ 5629499534213120]) (simp_all add: rhe_def)

lemma ev31 [ev64]: "sub64 0 0 = 0"
  by (simp add: sub64_def binary64_0)

lemma ev32 [ev64]: "mul64 (1 / 2) 0 = 0"
  by (simp add: mul64_def binary64_0)

lemma ev33 [ev64]: "add64 0 0 = 0"
  by (simp add: add64_def binary64_0)

lemma ev34 [ev64]: "sub64 120 100 = 20"
  unfolding sub64_def
  by (subst binary64_eval[of "- 48" _ 5629499534213120]) (simp_all add: rhe_def)

lemma ev35 [ev64]: "mul64 (9007199254740991 / 9007199254740992) 20 = (5629499534213119 / 281474976710656)"
  unfolding mul64_def
  by (subst binary64_eval[of "- 48" _ 5629499534213119]) (simp_all add: rhe_def)

lemma ev36 [ev64]: "add64 100 (5629499534213119 / 281474976710656) = 120"
  unfolding add64_def
  by (subst binary64_eval[of "- 46" _ 8444249301319680]) (simp_all add: rhe_def)

lemma ev37 [ev64]: "sub64 (7050948166601933 / 140737488355328) (3602879701896397 / 36028797018963968) = 50"
  unfolding sub64_def
  by (subst binary64_eval[of "- 47" _ 7036874417766400]) (simp_all add: rhe_def)

lemma ev38 [ev64]: "mul64 50 (3602879701896397 / 36028797018963968) = 5"
  unfolding mul64_def
  by (subst binary64_eval[of "- 50" _ 5629499534213120]) (simp_all add: rhe_def)

lemma ev39 [ev64]: "add64 (3602879701896397 / 36028797018963968) 5 = (2871044762448691 / 562949953421312)"
  unfolding add64_def
  by (subst binary64_eval[of "- 50" _ 5742089524897382]) (simp_all add: rhe_def)

lemma ev40 [ev64]: "mul64 0 50 = 0"
  by (simp add: mul64_def binary64_0)

lemma ev41 [ev64]: "add64 (2871044762448691 / 562949953421312) 0 = (2871044762448691 / 562949953421312)"
  unfolding add64_def
  by (subst binary64_eval[of "- 50" _ 5742089524897382]) (simp_all add: rhe_def)

lemma ev42 [ev64]: "mul64 50 (3602879701896397 / 18014398509481984) = 10"
  unfolding mul64_def
  by (subst binary64_eval[of "- 49" _ 5629499534213120]) (simp_all add: rhe_def)

lemma ev43 [ev64]: "add64 (3602879701896397 / 18014398509481984) 0 = (3602879701896397 / 18014398509481984)"
  unfolding add64_def
  by (subst binary64_eval[of "- 55" _ 7205759403792794]) (simp_all add: rhe_def)

lemma ev44 [ev64]: "mul64 10 (3602879701896397 / 18014398509481984) = 2"
  unfolding mul64_def
  by (subst binary64_eval[of "- 51" _ 4503599627370496]) (simp_all add: rhe_def)

lemma ev45 [ev64]: "sub64 (2871044762448691 / 562949953421312) 5 = (56294995342131 / 562949953421312)"
  unfolding sub64_def
  by (subst binary64_eval[of "- 56" _ 7205759403792768]) (simp_all add: rhe_def)

lemma is_double_0: "is_double 0"
  by (simp add: is_double_def binary64_0)

lemma is_double_numeral: "numeral n \<le> (9007199254740992::int) \<Longrightarrow> is_double (numeral n)"
  by (simp add: is_double_def)

lemma is_double_half: "is_double (1 / 2)"
  by (rule is_doubleI[of "- 1" 1]) simp_all

lemma is_double_32nd: "is_double (1 / 32)"
  by (rule is_doubleI[of "- 5" 1]) simp_all

lemma is_double_below_one: "is_double (9007199254740991 / 9007199254740992)"
  by (rule is_doubleI[of "- 53" 9007199254740991]) simp_all

lemma is_double_tenth: "is_double (3602879701896397 / 36028797018963968)"
  by (rule is_doubleI[of "- 55" 3602879701896397]) simp_all

lemma is_double_501: "is_double (7050948166601933 / 140737488355328)"
  by (rule is_doubleI[of "- 47" 7050948166601933]) simp_all

lemma double_box_100: "double_box terrain_100"
  by (simp add: double_box_def double_coord_def is_double_0 is_double_numeral)

lemma double_box_flat: "double_box terrain_flat"
  by (simp add: double_box_def double_coord_def is_double_0 is_double_numeral)

lemma double_box_high: "double_box terrain_high"
  by (simp add: double_box_def double_coord_def is_double_0 is_double_numeral)

lemma double_box_50: "double_box terrain_50"
  by (simp add: double_box_def double_coord_def is_double_0 is_double_numeral
      is_double_tenth is_double_501)

lemma double_draws_const: "is_double v \<Longrightarrow> 0 \<le> v \<Longrightarrow> v < 1 \<Longrightarrow> double_draws (sconst v)"
  by (simp add: double_draws_def)

lemma double_draws_0_half: "double_draws (0 ## sconst (1 / 2))"
  by (simp add: double_draws_def is_double_0 is_double_half)

lemma draws_0_half: "(0 ## sconst (1 / 2 :: real)) !! 0 = 0" "(0 ## sconst (1 / 2 :: real)) !! 1 = 1 / 2"
  "(0 ## sconst (1 / 2 :: real)) !! 2 = 1 / 2"
  by (simp_all add: eval_nat_numeral)

lemma eval_a:
  "centerX64 terrain_100 (1 / 32) = 25 / 2" "halfSize64 terrain_100 (1 / 32) = 5"
  "sub64 (25 / 2) 5 = 15 / 2"
  by (simp_all add: centerX64_def xRange64_def yRange64_def halfSize64_def pad_size64_def
      maxSize64_def m01 m02s m08s ev64)

lemma eval_b:
  "centerX64 terrain_100 0 = 10" "centerY64 terrain_100 (1 / 2) = 50"
  "pad_size64 terrain_100 (1 / 2) = 6755399441055745 / 562949953421312"
  "halfSize64 terrain_100 (1 / 2) = 6755399441055745 / 1125899906842624"
  by (simp_all add: centerX64_def centerY64_def xRange64_def yRange64_def halfSize64_def
      pad_size64_def maxSize64_def m01 m02s m08s ev64)

lemma eval_t50:
  "centerX64 terrain_50 0 = 2871044762448691 / 562949953421312"
  "halfSize64 terrain_50 0 = 5"
  by (simp_all add: centerX64_def xRange64_def yRange64_def halfSize64_def pad_size64_def
      maxSize64_def m01 m02s m08s ev64)

subsection \<open>The footprint and the inset region\<close>

text \<open>
  Claim C1 as stated does not hold: on the 100 by 100 terrain the inset interval of the x axis
  starts at 10, and with every draw equal to 1/32 the centre is at 12.5 and the side length is
  pinned to 10, so the first corner has x = 7.5, outside the inset interval.
\<close>

theorem footprint_inset_counterexample:
  "double_box terrain_100 \<and>
   0 < xRange terrain_100 \<and> 0 < yRange terrain_100 \<and> 0 < zRange terrain_100 \<and>
   double_draws (sconst (1 / 32)) \<and>
   pos_x (min_pt terrain_100) + 0.1 * xRange terrain_100 = 10 \<and>
   coord_x (coordinates (fst (generateRandomPad64 terrain_100 (sconst (1 / 32)))) ! 0) = 7.5 \<and>
   \<not> (pos_x (min_pt terrain_100) + 0.1 * xRange terrain_100
        \<le> coord_x (coordinates (fst (generateRandomPad64 terrain_100 (sconst (1 / 32)))) ! 0))"
  by (simp add: double_box_100 double_draws_const is_double_32nd xRange_def yRange_def
      zRange_def coordinates_generateRandomPad64 eval_a)

text \<open>
  Claim C1, amended. For a box of doubles with positive x and y ranges and draws in the
  interval from 0 (included) to 1 (excluded), the centre of the footprint lies in the inset
  interval from \<open>min + 0.1 * range\<close> to \<open>max - 0.1 * range\<close> of each axis, up to the rounding
  slack of the axis; \<open>halfSize\<close> lies between 5 and 25; and the four corners are the centre
  minus or plus \<open>halfSize\<close> on each axis, rounded. The corners need not lie in the inset
  interval.
\<close>

theorem generateRandomPad64_center_inset:
  assumes "double_box bbox" "pos_x (min_pt bbox) < pos_x (max_pt bbox)"
    "pos_y (min_pt bbox) < pos_y (max_pt bbox)" "double_draws g"
  shows "pos_x (min_pt bbox) + xRange bbox / 10
             - slack64 (pos_x (min_pt bbox)) (pos_x (max_pt bbox)) \<le> centerX64 bbox (g !! 0) \<and>
         centerX64 bbox (g !! 0) \<le> pos_x (max_pt bbox) - xRange bbox / 10
             + slack64 (pos_x (min_pt bbox)) (pos_x (max_pt bbox)) \<and>
         pos_y (min_pt bbox) + yRange bbox / 10
             - slack64 (pos_y (min_pt bbox)) (pos_y (max_pt bbox)) \<le> centerY64 bbox (g !! 1) \<and>
         centerY64 bbox (g !! 1) \<le> pos_y (max_pt bbox) - yRange bbox / 10
             + slack64 (pos_y (min_pt bbox)) (pos_y (max_pt bbox)) \<and>
         5 \<le> halfSize64 bbox (g !! 2) \<and> halfSize64 bbox (g !! 2) \<le> 25 \<and>
         coordinates (fst (generateRandomPad64 bbox g)) =
           [\<lparr>coord_x = sub64 (centerX64 bbox (g !! 0)) (halfSize64 bbox (g !! 2)),
             coord_y = sub64 (centerY64 bbox (g !! 1)) (halfSize64 bbox (g !! 2))\<rparr>,
            \<lparr>coord_x = add64 (centerX64 bbox (g !! 0)) (halfSize64 bbox (g !! 2)),
             coord_y = sub64 (centerY64 bbox (g !! 1)) (halfSize64 bbox (g !! 2))\<rparr>,
            \<lparr>coord_x = add64 (centerX64 bbox (g !! 0)) (halfSize64 bbox (g !! 2)),
             coord_y = add64 (centerY64 bbox (g !! 1)) (halfSize64 bbox (g !! 2))\<rparr>,
            \<lparr>coord_x = sub64 (centerX64 bbox (g !! 0)) (halfSize64 bbox (g !! 2)),
             coord_y = add64 (centerY64 bbox (g !! 1)) (halfSize64 bbox (g !! 2))\<rparr>]"
proof -
  have u0: "0 \<le> g !! 0" "g !! 0 \<le> 1" using double_draws_snth[OF assms(4), of 0] by simp_all
  have u1: "0 \<le> g !! 1" "g !! 1 \<le> 1" using double_draws_snth[OF assms(4), of 1] by simp_all
  have x: "pos_x (min_pt bbox) \<le> pos_x (max_pt bbox)" using assms(2) by simp
  have y: "pos_y (min_pt bbox) \<le> pos_y (max_pt bbox)" using assms(3) by simp
  show ?thesis
    using center64_slack[OF x u0] center64_slack[OF y u1] halfSize64_bounds[of bbox "g !! 2"]
    unfolding coordinates_generateRandomPad64 centerX64_def centerY64_def xRange64_def
      yRange64_def xRange_def yRange_def
    by simp
qed

text \<open>
  On the 100 by 100 terrain with every draw equal to 1/32: the centre is at 12.5 and
  \<open>halfSize\<close> is 5.
\<close>

theorem generateRandomPad64_center_inset_witness:
  "double_box terrain_100 \<and>
   pos_x (min_pt terrain_100) < pos_x (max_pt terrain_100) \<and>
   pos_y (min_pt terrain_100) < pos_y (max_pt terrain_100) \<and>
   double_draws (sconst (1 / 32)) \<and>
   centerX64 terrain_100 (sconst (1 / 32) !! 0) = 12.5 \<and>
   halfSize64 terrain_100 (sconst (1 / 32) !! 2) = 5 \<and>
   pos_x (min_pt terrain_100) + xRange terrain_100 / 10
       - slack64 (pos_x (min_pt terrain_100)) (pos_x (max_pt terrain_100))
     \<le> centerX64 terrain_100 (sconst (1 / 32) !! 0) \<and>
   centerX64 terrain_100 (sconst (1 / 32) !! 0)
     \<le> pos_x (max_pt terrain_100) - xRange terrain_100 / 10
       + slack64 (pos_x (min_pt terrain_100)) (pos_x (max_pt terrain_100))"
proof -
  have x: "pos_x (min_pt terrain_100) < pos_x (max_pt terrain_100)" by simp
  have y: "pos_y (min_pt terrain_100) < pos_y (max_pt terrain_100)" by simp
  have d: "double_draws (sconst (1 / 32))"
    by (simp add: double_draws_const is_double_32nd)
  have v: "centerX64 terrain_100 (sconst (1 / 32) !! 0) = 12.5"
    "halfSize64 terrain_100 (sconst (1 / 32) !! 2) = 5"
    by (simp_all add: eval_a)
  show ?thesis
    using double_box_100 x y d v generateRandomPad64_center_inset[OF double_box_100 x y d]
    by blast
qed

subsection \<open>Side length and shape of the footprint\<close>

text \<open>
  Claim C2 as stated does not hold: on the 100 by 100 terrain with the draws 0, 1/2, 1/2 the
  side length \<open>size\<close> is the double next above 12, the x coordinates of the first two corners
  are the double next below 4 and 16, and the y coordinates of the second and third corner are
  44 and 56. The side along x is not \<open>size\<close>, and the two sides differ: the footprint is not a
  square of exactly that side length.
\<close>

theorem square_side_counterexample:
  "double_box terrain_100 \<and> double_draws (0 ## sconst (1 / 2)) \<and>
   pad_size64 terrain_100 ((0 ## sconst (1 / 2)) !! 2) = 6755399441055745 / 562949953421312 \<and>
   coord_x (coordinates (fst (generateRandomPad64 terrain_100 (0 ## sconst (1 / 2)))) ! 0)
     = 4503599627370495 / 1125899906842624 \<and>
   coord_x (coordinates (fst (generateRandomPad64 terrain_100 (0 ## sconst (1 / 2)))) ! 1) = 16 \<and>
   coord_x (coordinates (fst (generateRandomPad64 terrain_100 (0 ## sconst (1 / 2)))) ! 1)
     - coord_x (coordinates (fst (generateRandomPad64 terrain_100 (0 ## sconst (1 / 2)))) ! 0)
     \<noteq> pad_size64 terrain_100 ((0 ## sconst (1 / 2)) !! 2) \<and>
   coord_y (coordinates (fst (generateRandomPad64 terrain_100 (0 ## sconst (1 / 2)))) ! 2)
     - coord_y (coordinates (fst (generateRandomPad64 terrain_100 (0 ## sconst (1 / 2)))) ! 1)
     = 12"
  by (simp add: double_box_100 double_draws_0_half coordinates_generateRandomPad64
      draws_0_half eval_b ev64)

text \<open>
  Claim C2, amended. The side length \<open>size\<close> lies in the closed interval from 10 to 50 and
  \<open>halfSize\<close> is exactly \<open>size / 2\<close>. The four corners are \<open>(x0, y0)\<close>, \<open>(x1, y0)\<close>, \<open>(x1, y1)\<close>,
  \<open>(x0, y1)\<close>, where \<open>x0\<close>, \<open>x1\<close> are \<open>centerX\<close> minus and plus \<open>halfSize\<close>, rounded, and \<open>y0\<close>,
  \<open>y1\<close> likewise: an axis-aligned rectangle. Each side differs from \<open>size\<close> by at most
  \<open>(\<bar>centre\<bar> + halfSize) / 2 ^ 52 + 2 * eta64\<close>, and the midpoint of opposite corners differs from
  the centre by at most half of that, on each axis.
\<close>

theorem generateRandomPad64_square:
  assumes "double_box bbox" "double_draws g"
  shows "(let s = pad_size64 bbox (g !! 2); h = halfSize64 bbox (g !! 2);
             cx = centerX64 bbox (g !! 0); cy = centerY64 bbox (g !! 1);
             x0 = sub64 cx h; x1 = add64 cx h; y0 = sub64 cy h; y1 = add64 cy h
         in 10 \<le> s \<and> s \<le> 50 \<and> h = s / 2 \<and>
            coordinates (fst (generateRandomPad64 bbox g)) =
              [\<lparr>coord_x = x0, coord_y = y0\<rparr>, \<lparr>coord_x = x1, coord_y = y0\<rparr>,
               \<lparr>coord_x = x1, coord_y = y1\<rparr>, \<lparr>coord_x = x0, coord_y = y1\<rparr>] \<and>
            \<bar>(x1 - x0) - s\<bar> \<le> (\<bar>cx\<bar> + h) / 2 ^ 52 + 2 * eta64 \<and>
            \<bar>(y1 - y0) - s\<bar> \<le> (\<bar>cy\<bar> + h) / 2 ^ 52 + 2 * eta64 \<and>
            \<bar>(x0 + x1) / 2 - cx\<bar> \<le> (\<bar>cx\<bar> + h) / 2 ^ 53 + eta64 \<and>
            \<bar>(y0 + y1) / 2 - cy\<bar> \<le> (\<bar>cy\<bar> + h) / 2 ^ 53 + eta64)"
proof -
  define s where "s = pad_size64 bbox (g !! 2)"
  define h where "h = halfSize64 bbox (g !! 2)"
  have hs: "h = s / 2" by (simp add: h_def s_def halfSize64_half)
  have h0: "0 \<le> h" using halfSize64_bounds[of bbox "g !! 2"] by (simp add: h_def)
  have side: "\<bar>(add64 c h - sub64 c h) - s\<bar> \<le> (\<bar>c\<bar> + h) / 2 ^ 52 + 2 * eta64"
    and mid: "\<bar>(sub64 c h + add64 c h) / 2 - c\<bar> \<le> (\<bar>c\<bar> + h) / 2 ^ 53 + eta64" for c
  proof -
    define p where "p = \<bar>c + h\<bar>"
    define m where "m = \<bar>c - h\<bar>"
    define ac where "ac = \<bar>c\<bar>"
    have pm: "p \<le> ac + h" "m \<le> ac + h" using h0 unfolding p_def m_def ac_def by linarith+
    have e1: "add64 c h \<le> c + h + (p / 9007199254740992 + eta64)"
      using abs_err_upper[OF binary64_abs_err[of "c + h"]] by (simp add: add64_def p_def)
    have e2: "c + h - (p / 9007199254740992 + eta64) \<le> add64 c h"
      using abs_err_lower[OF binary64_abs_err[of "c + h"]] by (simp add: add64_def p_def)
    have e3: "sub64 c h \<le> c - h + (m / 9007199254740992 + eta64)"
      using abs_err_upper[OF binary64_abs_err[of "c - h"]] by (simp add: sub64_def m_def)
    have e4: "c - h - (m / 9007199254740992 + eta64) \<le> sub64 c h"
      using abs_err_lower[OF binary64_abs_err[of "c - h"]] by (simp add: sub64_def m_def)
    have "\<bar>(add64 c h - sub64 c h) - s\<bar> \<le> (ac + h) / 4503599627370496 + 2 * eta64"
      unfolding abs_le_iff using e1 e2 e3 e4 pm hs by argo
    then show "\<bar>(add64 c h - sub64 c h) - s\<bar> \<le> (\<bar>c\<bar> + h) / 2 ^ 52 + 2 * eta64"
      by (simp add: ac_def)
    have "\<bar>(sub64 c h + add64 c h) / 2 - c\<bar> \<le> (ac + h) / 9007199254740992 + eta64"
      unfolding abs_le_iff using e1 e2 e3 e4 pm by argo
    then show "\<bar>(sub64 c h + add64 c h) / 2 - c\<bar> \<le> (\<bar>c\<bar> + h) / 2 ^ 53 + eta64"
      by (simp add: ac_def)
  qed
  show ?thesis
    unfolding Let_def s_def[symmetric] h_def[symmetric]
    using pad_size64_bounds[of bbox "g !! 2"] hs side mid
    by (simp add: coordinates_generateRandomPad64 s_def h_def)
qed

text \<open>
  The same terrain and draws as in the counterexample.
\<close>

theorem generateRandomPad64_square_witness:
  "double_box terrain_100 \<and> double_draws (0 ## sconst (1 / 2)) \<and>
   (let s = pad_size64 terrain_100 ((0 ## sconst (1 / 2)) !! 2);
        h = halfSize64 terrain_100 ((0 ## sconst (1 / 2)) !! 2);
        cx = centerX64 terrain_100 ((0 ## sconst (1 / 2)) !! 0);
        cy = centerY64 terrain_100 ((0 ## sconst (1 / 2)) !! 1);
        x0 = sub64 cx h; x1 = add64 cx h; y0 = sub64 cy h; y1 = add64 cy h
    in 10 \<le> s \<and> s \<le> 50 \<and> h = s / 2 \<and>
       coordinates (fst (generateRandomPad64 terrain_100 (0 ## sconst (1 / 2)))) =
         [\<lparr>coord_x = x0, coord_y = y0\<rparr>, \<lparr>coord_x = x1, coord_y = y0\<rparr>,
          \<lparr>coord_x = x1, coord_y = y1\<rparr>, \<lparr>coord_x = x0, coord_y = y1\<rparr>] \<and>
       \<bar>(x1 - x0) - s\<bar> \<le> (\<bar>cx\<bar> + h) / 2 ^ 52 + 2 * eta64 \<and>
       \<bar>(y1 - y0) - s\<bar> \<le> (\<bar>cy\<bar> + h) / 2 ^ 52 + 2 * eta64 \<and>
       \<bar>(x0 + x1) / 2 - cx\<bar> \<le> (\<bar>cx\<bar> + h) / 2 ^ 53 + eta64 \<and>
       \<bar>(y0 + y1) / 2 - cy\<bar> \<le> (\<bar>cy\<bar> + h) / 2 ^ 53 + eta64)"
  using double_box_100 double_draws_0_half
    generateRandomPad64_square[OF double_box_100 double_draws_0_half]
  by blast

subsection \<open>Elevation\<close>

text \<open>
  Claim C3 as stated does not hold for a box of height zero: there the elevation equals
  \<open>min.z = max.z\<close>, which is not below \<open>max.z\<close>.
\<close>

theorem elevation_half_open_counterexample:
  "double_box terrain_flat \<and>
   pos_x (min_pt terrain_flat) \<le> pos_x (max_pt terrain_flat) \<and>
   pos_y (min_pt terrain_flat) \<le> pos_y (max_pt terrain_flat) \<and>
   pos_z (min_pt terrain_flat) \<le> pos_z (max_pt terrain_flat) \<and>
   double_draws (sconst (1 / 2)) \<and>
   elevation (fst (generateRandomPad64 terrain_flat (sconst (1 / 2)))) = 0 \<and>
   pos_z (max_pt terrain_flat) = 0 \<and>
   \<not> (elevation (fst (generateRandomPad64 terrain_flat (sconst (1 / 2))))
        < pos_z (max_pt terrain_flat))"
  by (simp add: double_box_flat double_draws_const is_double_half
      elevation_generateRandomPad64 zRange64_def ev64)

text \<open>
  Rounding reaches \<open>max.z\<close> on a box of positive height too: for z from 100 to 120 and the
  largest draw, \<open>1 - 1 / 2 ^ 53\<close>, the elevation is 120.
\<close>

lemma elevation64_reaches_max:
  "double_box terrain_high \<and>
   pos_z (min_pt terrain_high) < pos_z (max_pt terrain_high) \<and>
   double_draws (sconst (9007199254740991 / 9007199254740992)) \<and>
   elevation (fst (generateRandomPad64 terrain_high
      (sconst (9007199254740991 / 9007199254740992)))) = 120 \<and>
   pos_z (max_pt terrain_high) = 120"
  by (simp add: double_box_high double_draws_const is_double_below_one
      elevation_generateRandomPad64 zRange64_def ev64)

text \<open>
  Claim C3, amended. For a box of doubles with \<open>min.z \<le> max.z\<close> and draws in the interval
  from 0 (included) to 1 (excluded), the elevation lies in the closed interval from \<open>min.z\<close> to
  \<open>max.z\<close>.
\<close>

theorem generateRandomPad64_elevation:
  assumes "double_box bbox" "pos_z (min_pt bbox) \<le> pos_z (max_pt bbox)" "double_draws g"
  shows "pos_z (min_pt bbox) \<le> elevation (fst (generateRandomPad64 bbox g)) \<and>
         elevation (fst (generateRandomPad64 bbox g)) \<le> pos_z (max_pt bbox)"
proof -
  define a where "a = pos_z (min_pt bbox)"
  define b where "b = pos_z (max_pt bbox)"
  define u where "u = g !! 3"
  define t where "t = binary64 (u * binary64 (b - a))"
  have da: "is_double a" and db: "is_double b"
    using assms(1) by (simp_all add: double_box_def double_coord_def a_def b_def)
  have u: "is_double u" "0 \<le> u" "u < 1"
    using double_draws_snth[OF assms(3), of 3] by (simp_all add: u_def)
  have ab: "a \<le> b" using assms(2) by (simp add: a_def b_def)
  have e: "elevation (fst (generateRandomPad64 bbox g)) = binary64 (a + t)"
    by (simp add: elevation_generateRandomPad64 add64_def mul64_def zRange64_def sub64_def
        a_def b_def u_def t_def)
  have "0 \<le> binary64 (b - a)" using ab by (intro binary64_nonneg) simp
  then have "0 \<le> u * binary64 (b - a)" using u(2) by simp
  then have t0: "0 \<le> t" unfolding t_def by (rule binary64_nonneg)
  have "binary64 a \<le> binary64 (a + t)" using t0 by (intro binary64_mono) simp
  then have lo: "a \<le> binary64 (a + t)" using da by (simp add: is_double_def)
  have "t \<le> b - a" unfolding t_def by (rule draw_scale_le[OF da db ab u])
  then have "binary64 (a + t) \<le> binary64 b" by (intro binary64_mono) simp
  then have hi: "binary64 (a + t) \<le> b" using db by (simp add: is_double_def)
  show ?thesis unfolding e using lo hi by (simp add: a_def b_def)
qed

text \<open>
  On the terrain of height 20 with every draw equal to one half the elevation is 10.
\<close>

theorem generateRandomPad64_elevation_witness:
  "double_box terrain_100 \<and>
   pos_z (min_pt terrain_100) \<le> pos_z (max_pt terrain_100) \<and>
   double_draws (sconst (1 / 2)) \<and>
   elevation (fst (generateRandomPad64 terrain_100 (sconst (1 / 2)))) = 10 \<and>
   pos_z (min_pt terrain_100) \<le> elevation (fst (generateRandomPad64 terrain_100 (sconst (1 / 2)))) \<and>
   elevation (fst (generateRandomPad64 terrain_100 (sconst (1 / 2)))) \<le> pos_z (max_pt terrain_100)"
proof -
  have z: "pos_z (min_pt terrain_100) \<le> pos_z (max_pt terrain_100)" by simp
  have d: "double_draws (sconst (1 / 2))" by (simp add: double_draws_const is_double_half)
  have v: "elevation (fst (generateRandomPad64 terrain_100 (sconst (1 / 2)))) = 10"
    by (simp add: elevation_generateRandomPad64 zRange64_def ev64)
  show ?thesis
    using double_box_100 z d v generateRandomPad64_elevation[OF double_box_100 z d] by blast
qed

subsection \<open>Large terrains\<close>

text \<open>
  Claim C10 as stated does not hold: on the 50 by 50 terrain between the doubles nearest to
  0.1 and to 50.1, with every draw equal to 0, the first corner has an x coordinate below
  \<open>min.x\<close>, by the rounding of the centre.
\<close>

theorem within_bounds_counterexample:
  "double_box terrain_50 \<and> 50 \<le> min (xRange terrain_50) (yRange terrain_50) \<and>
   double_draws (sconst 0) \<and>
   coord_x (coordinates (fst (generateRandomPad64 terrain_50 (sconst 0))) ! 0)
     = 56294995342131 / 562949953421312 \<and>
   \<not> (pos_x (min_pt terrain_50)
        \<le> coord_x (coordinates (fst (generateRandomPad64 terrain_50 (sconst 0))) ! 0))"
  by (simp add: double_box_50 double_draws_const is_double_0 xRange_def yRange_def
      coordinates_generateRandomPad64 eval_t50 ev64)

text \<open>
  Claim C10, amended. For a box of doubles with \<open>min xRange yRange \<ge> 50\<close> and draws in the
  interval from 0 (included) to 1 (excluded), the side length does not exceed \<open>maxSize\<close> (both as
  computed in double arithmetic), so \<open>halfSize\<close> is at most \<open>maxSize / 2\<close>, and all four corners
  lie within the footprint of the box widened by twice the rounding slack of the axis: x
  between \<open>min.x - 2 * slack\<close> and \<open>max.x + 2 * slack\<close>, y likewise.
\<close>

theorem generateRandomPad64_within_bounds:
  assumes "double_box bbox" "50 \<le> min (xRange bbox) (yRange bbox)" "double_draws g"
  shows "(let h = halfSize64 bbox (g !! 2);
             cx = centerX64 bbox (g !! 0); cy = centerY64 bbox (g !! 1);
             x0 = sub64 cx h; x1 = add64 cx h; y0 = sub64 cy h; y1 = add64 cy h;
             sx = 2 * slack64 (pos_x (min_pt bbox)) (pos_x (max_pt bbox));
             sy = 2 * slack64 (pos_y (min_pt bbox)) (pos_y (max_pt bbox))
         in pad_size64 bbox (g !! 2) \<le> maxSize64 bbox \<and> h \<le> maxSize64 bbox / 2 \<and>
            coordinates (fst (generateRandomPad64 bbox g)) =
              [\<lparr>coord_x = x0, coord_y = y0\<rparr>, \<lparr>coord_x = x1, coord_y = y0\<rparr>,
               \<lparr>coord_x = x1, coord_y = y1\<rparr>, \<lparr>coord_x = x0, coord_y = y1\<rparr>] \<and>
            pos_x (min_pt bbox) - sx \<le> x0 \<and> x0 \<le> x1 \<and> x1 \<le> pos_x (max_pt bbox) + sx \<and>
            pos_y (min_pt bbox) - sy \<le> y0 \<and> y0 \<le> y1 \<and> y1 \<le> pos_y (max_pt bbox) + sy)"
proof -
  define h where "h = halfSize64 bbox (g !! 2)"
  have u0: "0 \<le> g !! 0" "g !! 0 \<le> 1" using double_draws_snth[OF assms(3), of 0] by simp_all
  have u1: "0 \<le> g !! 1" "g !! 1 \<le> 1" using double_draws_snth[OF assms(3), of 1] by simp_all
  have u2: "0 \<le> g !! 2" "g !! 2 \<le> 1" using double_draws_snth[OF assms(3), of 2] by simp_all
  have rx: "50 \<le> xRange bbox" and ry: "50 \<le> yRange bbox" using assms(2) by simp_all
  have x: "pos_x (min_pt bbox) \<le> pos_x (max_pt bbox)" using rx by (simp add: xRange_def)
  have y: "pos_y (min_pt bbox) \<le> pos_y (max_pt bbox)" using ry by (simp add: yRange_def)
  have "binary64 50 \<le> binary64 (xRange bbox)" using rx by (rule binary64_mono)
  then have rx64: "50 \<le> xRange64 bbox" by (simp add: xRange64_def sub64_def xRange_def)
  have "binary64 50 \<le> binary64 (yRange bbox)" using ry by (rule binary64_mono)
  then have ry64: "50 \<le> yRange64 bbox" by (simp add: yRange64_def sub64_def yRange_def)
  have sz: "pad_size64 bbox (g !! 2) \<le> maxSize64 bbox"
    using rx64 ry64 u2 by (intro pad_size64_le_maxSize64) simp_all
  have hm: "h \<le> maxSize64 bbox / 2" using sz by (simp add: h_def halfSize64_half)
  have h0: "0 \<le> h" using halfSize64_bounds[of bbox "g !! 2"] by (simp add: h_def)
  note p = lit64_nonneg(1)
  have "min (xRange64 bbox) (yRange64 bbox) * binary64 0.2 \<le> xRange64 bbox * binary64 0.2"
    using p by (intro mult_right_mono) simp_all
  then have "maxSize64 bbox \<le> mul64 (xRange64 bbox) (binary64 0.2)"
    unfolding maxSize64_def mul64_def by (rule binary64_mono)
  then have hx: "h \<le> mul64 (sub64 (pos_x (max_pt bbox)) (pos_x (min_pt bbox))) (binary64 0.2) / 2"
    using hm by (simp add: xRange64_def)
  have "min (xRange64 bbox) (yRange64 bbox) * binary64 0.2 \<le> yRange64 bbox * binary64 0.2"
    using p by (intro mult_right_mono) simp_all
  then have "maxSize64 bbox \<le> mul64 (yRange64 bbox) (binary64 0.2)"
    unfolding maxSize64_def mul64_def by (rule binary64_mono)
  then have hy: "h \<le> mul64 (sub64 (pos_y (max_pt bbox)) (pos_y (min_pt bbox))) (binary64 0.2) / 2"
    using hm by (simp add: yRange64_def)
  show ?thesis
    unfolding Let_def h_def[symmetric]
    using sz hm corner64_slack[OF x u0 h0 hx] corner64_slack[OF y u1 h0 hy]
      sub64_le_add64[OF h0]
    unfolding coordinates_generateRandomPad64 centerX64_def centerY64_def xRange64_def
      yRange64_def h_def[symmetric]
    by simp
qed

text \<open>
  The terrain and draws of the counterexample: the first corner is within the slack.
\<close>

theorem generateRandomPad64_within_bounds_witness:
  "double_box terrain_50 \<and> 50 \<le> min (xRange terrain_50) (yRange terrain_50) \<and>
   double_draws (sconst 0) \<and>
   (let h = halfSize64 terrain_50 (sconst 0 !! 2);
        cx = centerX64 terrain_50 (sconst 0 !! 0); cy = centerY64 terrain_50 (sconst 0 !! 1);
        x0 = sub64 cx h; x1 = add64 cx h; y0 = sub64 cy h; y1 = add64 cy h;
        sx = 2 * slack64 (pos_x (min_pt terrain_50)) (pos_x (max_pt terrain_50));
        sy = 2 * slack64 (pos_y (min_pt terrain_50)) (pos_y (max_pt terrain_50))
    in pad_size64 terrain_50 (sconst 0 !! 2) \<le> maxSize64 terrain_50 \<and>
       h \<le> maxSize64 terrain_50 / 2 \<and>
       coordinates (fst (generateRandomPad64 terrain_50 (sconst 0))) =
         [\<lparr>coord_x = x0, coord_y = y0\<rparr>, \<lparr>coord_x = x1, coord_y = y0\<rparr>,
          \<lparr>coord_x = x1, coord_y = y1\<rparr>, \<lparr>coord_x = x0, coord_y = y1\<rparr>] \<and>
       pos_x (min_pt terrain_50) - sx \<le> x0 \<and> x0 \<le> x1 \<and>
       x1 \<le> pos_x (max_pt terrain_50) + sx \<and>
       pos_y (min_pt terrain_50) - sy \<le> y0 \<and> y0 \<le> y1 \<and>
       y1 \<le> pos_y (max_pt terrain_50) + sy)"
proof -
  have r: "50 \<le> min (xRange terrain_50) (yRange terrain_50)"
    by (simp add: xRange_def yRange_def)
  have d: "double_draws (sconst 0)" by (simp add: double_draws_const is_double_0)
  show ?thesis
    using double_box_50 r d generateRandomPad64_within_bounds[OF double_box_50 r d]
    by blast
qed

end
